theory Spec2Isabelle
  imports Main "HOL-Library.Sublist" "HOL-Library.List_Lexorder"
begin

section \<open>Python strings and the runtime's character classes\<close>

text \<open>
  A Python \<open>str\<close> is a sequence of Unicode code points, so a string is a list of
  natural numbers. The scripts' literals are ASCII apart from four footnote glyphs and are
  written through \<open>py\<close>.
\<close>

type_synonym pystr = "nat list"

text \<open>The exceptions the scripts can meet, as values.\<close>

datatype py_error = OSError | UnicodeDecodeError | ValueError

definition py :: "string \<Rightarrow> pystr" where
  "py s = map of_char s"

definition LT :: nat where "LT = 60"
definition GT :: nat where "GT = 62"
definition AMP :: nat where "AMP = 38"
definition SP :: nat where "SP = 32"

text \<open>
  \<open>\s\<close> of \<open>re\<close> on a \<open>str\<close> pattern and \<open>str.strip()\<close> use the same
  predicate, \<open>str.isspace\<close>; these are its code points.
\<close>

definition is_space :: "nat \<Rightarrow> bool" where
  "is_space c = (c \<in> set [9, 10, 11, 12, 13, 28, 29, 30, 31, 32, 133, 160, 5760,
     8192, 8193, 8194, 8195, 8196, 8197, 8198, 8199, 8200, 8201, 8202,
     8232, 8233, 8239, 8287, 12288])"

text \<open>
  \<open>\d\<close> on a \<open>str\<close> pattern matches every Unicode decimal digit, and \<open>int\<close>
  reads each of them by its decimal value. The decimal digits come in runs of ten,
  \<open>0\<close> to \<open>9\<close>; the table lists the first code point of each run (Unicode 14).
\<close>

definition digit_starts :: "nat list" where
  "digit_starts = [48, 1632, 1776, 1984, 2406, 2534, 2662, 2790, 2918, 3046, 3174, 3302,
     3430, 3558, 3664, 3792, 3872, 4160, 4240, 6112, 6160, 6470, 6608, 6784, 6800, 6992,
     7088, 7232, 7248, 42528, 43216, 43264, 43472, 43504, 43600, 44016, 65296, 66720,
     68912, 69734, 69872, 69942, 70096, 70384, 70736, 70864, 71248, 71360, 71472, 71904,
     72016, 72784, 73040, 73120, 92768, 92864, 93008, 120782, 120792, 120802, 120812,
     120822, 123200, 123632, 125264, 130032]"

definition digit_value :: "nat \<Rightarrow> nat option" where
  "digit_value c =
     (case find (\<lambda>s. s \<le> c \<and> c < s + 10) digit_starts of
        None \<Rightarrow> None
      | Some s \<Rightarrow> Some (c - s))"

definition is_digit :: "nat \<Rightarrow> bool" where
  "is_digit c = (digit_value c \<noteq> None)"

text \<open>The decimal value of a run of digits, an unbounded integer.\<close>

definition digits_value :: "pystr \<Rightarrow> int" where
  "digits_value s =
     foldl (\<lambda>n c. 10 * n + int (case digit_value c of Some v \<Rightarrow> v | None \<Rightarrow> 0)) 0 s"

text \<open>
  \<open>int(s)\<close> on a capture of \<open>\d+\<close>, the only strings the source applies it to.
  The interpreter refuses a decimal conversion of more than
  \<open>sys.int_info.default_max_str_digits\<close> digits, leading zeros counted, with
  \<open>ValueError\<close>; otherwise the result is the decimal value.
\<close>

definition int_max_str_digits :: nat where
  "int_max_str_digits = 4300"

definition py_int :: "pystr \<Rightarrow> py_error + int" where
  "py_int s = (if int_max_str_digits < length s then Inl ValueError else Inr (digits_value s))"

text \<open>\<open>[A-Z0-9]\<close> is an ASCII class.\<close>

definition is_AZ09 :: "nat \<Rightarrow> bool" where
  "is_AZ09 c = ((65 \<le> c \<and> c \<le> 90) \<or> (48 \<le> c \<and> c \<le> 57))"

section \<open>String primitives\<close>

text \<open>\<open>occurs pat s\<close>: \<open>pat in s\<close>.\<close>

fun occurs :: "pystr \<Rightarrow> pystr \<Rightarrow> bool" where
  "occurs pat [] = (pat = [])"
| "occurs pat (c # cs) = (prefix pat (c # cs) \<or> occurs pat cs)"

text \<open>The text after the first occurrence of \<open>pat\<close>, if there is one.\<close>

fun find_after :: "pystr \<Rightarrow> pystr \<Rightarrow> pystr option" where
  "find_after pat [] = (if pat = [] then Some [] else None)"
| "find_after pat (c # cs) =
     (if prefix pat (c # cs) then Some (drop (length pat) (c # cs)) else find_after pat cs)"

text \<open>
  \<open>s.replace(pat, rep)\<close> for a non-empty \<open>pat\<close>: the non-overlapping occurrences,
  leftmost first, in one pass.
\<close>

function replace :: "pystr \<Rightarrow> pystr \<Rightarrow> pystr \<Rightarrow> pystr" where
  "replace pat rep [] = []"
| "replace pat rep (c # cs) =
     (if pat \<noteq> [] \<and> prefix pat (c # cs)
      then rep @ replace pat rep (drop (length pat) (c # cs))
      else c # replace pat rep cs)"
  by pat_completeness auto
termination
  by (relation "measure (\<lambda>(pat, rep, s). length s)") auto

text \<open>\<open>s.strip()\<close>.\<close>

definition py_strip :: "pystr \<Rightarrow> pystr" where
  "py_strip s = rev (dropWhile is_space (rev (dropWhile is_space s)))"

section \<open>The extractors\<close>

subsection \<open>Removing footnote popups\<close>

definition POPUP_OPEN :: pystr where
  \<open>POPUP_OPEN = py ''<span class="popup">''\<close>

definition SPAN_CLOSE :: pystr where
  "SPAN_CLOSE = py ''</span>''"

text \<open>
  \<open>re.sub(r'<span class="popup">.*?</span>', '', html_content, flags=re.DOTALL)\<close>: at
  an opening tag the lazy \<open>.*?\<close> runs to the first \<open></span>\<close> after it; with none, the
  pattern fails there and the scan moves on by one character.
\<close>

function strip_popups :: "pystr \<Rightarrow> pystr" where
  "strip_popups [] = []"
| "strip_popups (c # cs) =
     (if prefix POPUP_OPEN (c # cs)
      then (case find_after SPAN_CLOSE (drop (length POPUP_OPEN) (c # cs)) of
              Some rest \<Rightarrow> strip_popups rest
            | None \<Rightarrow> c # strip_popups cs)
      else c # strip_popups cs)"
  by pat_completeness auto
termination
proof (relation "measure length")
  have fa: "find_after pat s = Some r \<Longrightarrow> length r \<le> length s" for pat s r
    by (induction s) (auto split: if_splits)
  fix c cs rest
  assume "find_after SPAN_CLOSE (drop (length POPUP_OPEN) (c # cs)) = Some rest"
  from fa [OF this] have "length rest \<le> length (c # cs) - length POPUP_OPEN"
    by simp
  moreover have "length POPUP_OPEN = 20"
    by (simp add: POPUP_OPEN_def py_def)
  ultimately show "(rest, c # cs) \<in> measure length"
    by simp
qed auto

subsection \<open>Verse markers\<close>

definition VERSE_OPEN :: pystr where
  \<open>VERSE_OPEN = py ''<span class="verse"''\<close>

definition DIV_CLOSE :: pystr where
  "DIV_CLOSE = py ''</div>''"

text \<open>
  \<open>(.*?)(?=<span class="verse"|</div>)\<close>: the shortest body after which one of the two
  terminators starts. The result is the body and the text from the terminator on (the
  lookahead consumes nothing). At the end of the text no terminator can start.
\<close>

fun lazy_body :: "pystr \<Rightarrow> (pystr \<times> pystr) option" where
  "lazy_body [] = None"
| "lazy_body (c # cs) =
     (if prefix VERSE_OPEN (c # cs) \<or> prefix DIV_CLOSE (c # cs) then Some ([], c # cs)
      else (case lazy_body cs of None \<Rightarrow> None | Some (t, r) \<Rightarrow> Some (c # t, r)))"

definition strip_prefix :: "pystr \<Rightarrow> pystr \<Rightarrow> pystr option" where
  "strip_prefix pat s = (if prefix pat s then Some (drop (length pat) s) else None)"

text \<open>
  The pattern \<open>id="V(\d+)">(\d+)&#160;</span>(.*?)(?=...)\<close> tried at the head of \<open>s\<close>,
  after the literal \<open>pre\<close> that opens it (\<open>id="V\<close> in extract_bible_data,
  \<open><span class="verse" id="V\<close> in extract_darby). Each greedy \<open>\d+\<close> is followed by a
  character that is no digit, so it takes the whole run of digits. The result is the three
  groups and the text after the match.
\<close>

definition match_verse :: "pystr \<Rightarrow> pystr \<Rightarrow> ((pystr \<times> pystr \<times> pystr) \<times> pystr) option" where
  \<open>match_verse pre s =
     (case strip_prefix pre s of None \<Rightarrow> None | Some s1 \<Rightarrow>
        if takeWhile is_digit s1 = [] then None else
        (case strip_prefix (py ''">'') (dropWhile is_digit s1) of None \<Rightarrow> None | Some s3 \<Rightarrow>
           if takeWhile is_digit s3 = [] then None else
           (case strip_prefix (py ''&#160;</span>'') (dropWhile is_digit s3) of None \<Rightarrow> None
            | Some s5 \<Rightarrow>
              (case lazy_body s5 of None \<Rightarrow> None
               | Some (t, rest) \<Rightarrow>
                   Some ((takeWhile is_digit s1, takeWhile is_digit s3, t), rest)))))\<close>

text \<open>
  \<open>re.findall(pattern, html_content, re.DOTALL)\<close>: the matches from left to right, each
  search starting where the previous match ended.
\<close>

function findall :: "pystr \<Rightarrow> pystr \<Rightarrow> (pystr \<times> pystr \<times> pystr) list" where
  "findall pre [] = []"
| "findall pre (c # cs) =
     (case match_verse pre (c # cs) of
        Some (g, rest) \<Rightarrow> g # findall pre rest
      | None \<Rightarrow> findall pre cs)"
  by pat_completeness auto
termination
proof (relation "measure (\<lambda>(pre, s). length s)")
  have lb: "lazy_body s = Some (t, r) \<Longrightarrow> length r \<le> length s" for s t r
    by (induction s arbitrary: t) (auto split: if_splits option.splits)
  fix pre c cs x g rest
  assume m: "match_verse pre (c # cs) = Some x" and x: "(g, rest) = x"
  from m x obtain s1 s3 s5 t where
    s1: "strip_prefix pre (c # cs) = Some s1" and d1: "takeWhile is_digit s1 \<noteq> []" and
    s3: "strip_prefix (py ''\">'') (dropWhile is_digit s1) = Some s3" and
    s5: "strip_prefix (py ''&#160;</span>'') (dropWhile is_digit s3) = Some s5" and
    b: "lazy_body s5 = Some (t, rest)"
    by (auto simp: match_verse_def split: option.splits if_splits)
  have sp: "strip_prefix p u = Some v \<Longrightarrow> length v \<le> length u" for p u v
    by (auto simp: strip_prefix_def split: if_splits)
  have dw: "length (dropWhile is_digit u) \<le> length u" for u
    by (rule length_dropWhile_le)
  from d1 have "length (dropWhile is_digit s1) < length s1"
    by (metis length_append less_add_same_cancel2 length_greater_0_conv
        takeWhile_dropWhile_id)
  with sp [OF s1] sp [OF s3] sp [OF s5] lb [OF b] dw [of s3]
  show "((pre, rest), (pre, c # cs)) \<in> measure (\<lambda>(pre, s). length s)"
    by simp
qed auto

subsection \<open>Normalising a verse body\<close>

text \<open>
  \<open>re.sub(r'<[^>]+>', ' ', text)\<close>: after \<open><\<close> the greedy class runs to the first
  \<open>>\<close>; the pattern matches when that run is not empty and the \<open>>\<close> exists.
\<close>

function strip_tags :: "pystr \<Rightarrow> pystr" where
  "strip_tags [] = []"
| "strip_tags (c # cs) =
     (if c = LT \<and> takeWhile (\<lambda>x. x \<noteq> GT) cs \<noteq> [] \<and> dropWhile (\<lambda>x. x \<noteq> GT) cs \<noteq> []
      then SP # strip_tags (tl (dropWhile (\<lambda>x. x \<noteq> GT) cs))
      else c # strip_tags cs)"
  by pat_completeness auto
termination
proof (relation "measure length")
  fix c :: nat and cs :: pystr
  have "length (tl (dropWhile (\<lambda>x. x \<noteq> GT) cs)) \<le> length cs"
    using length_dropWhile_le [of "\<lambda>x. x \<noteq> GT" cs] by simp
  then show "(tl (dropWhile (\<lambda>x. x \<noteq> GT) cs), c # cs) \<in> measure length"
    by simp
qed auto

text \<open>The seven \<open>text.replace\<close> calls, in the source's order.\<close>

definition decode_entities :: "pystr \<Rightarrow> pystr" where
  \<open>decode_entities text0 =
     (let text1 = replace (py ''&#160;'') [SP] text0;
          text2 = replace (py ''&nbsp;'') [SP] text1;
          text3 = replace (py ''&lt;'') [LT] text2;
          text4 = replace (py ''&gt;'') [GT] text3;
          text5 = replace (py ''&amp;'') [AMP] text4;
          text6 = replace (py ''&quot;'') [34] text5
      in replace (py ''&apos;'') [39] text6)\<close>

text \<open>
  \<open>re.sub(r'[...]', '', text)\<close> over the four footnote glyphs: dagger U+2020, double
  dagger U+2021, section sign U+00A7, pilcrow U+00B6.
\<close>

definition remove_footnote_markers :: "pystr \<Rightarrow> pystr" where
  "remove_footnote_markers s = filter (\<lambda>c. c \<notin> set [8224, 8225, 167, 182]) s"

text \<open>\<open>text.replace('[', '').replace(']', '')\<close>.\<close>

definition remove_square_brackets :: "pystr \<Rightarrow> pystr" where
  "remove_square_brackets s = replace (py '']'') [] (replace (py ''['') [] s)"

text \<open>\<open>re.sub(r'\s+', ' ', text)\<close>: every maximal run of whitespace becomes one space.\<close>

function collapse_ws :: "pystr \<Rightarrow> pystr" where
  "collapse_ws [] = []"
| "collapse_ws (c # cs) =
     (if is_space c then SP # collapse_ws (dropWhile is_space cs) else c # collapse_ws cs)"
  by pat_completeness auto
termination
proof (relation "measure length")
  fix c :: nat and cs :: pystr
  show "(dropWhile is_space cs, c # cs) \<in> measure length"
    using length_dropWhile_le [of is_space cs] by simp
qed auto

definition clean_bible :: "pystr \<Rightarrow> pystr" where
  "clean_bible t =
     py_strip (collapse_ws (remove_footnote_markers (decode_entities (strip_tags t))))"

definition clean_darby :: "pystr \<Rightarrow> pystr" where
  "clean_darby t =
     py_strip (collapse_ws (remove_square_brackets (decode_entities (strip_tags t))))"

subsection \<open>The two \<open>extract_verses_from_html\<close>\<close>

text \<open>The dictionaries appended to \<open>verses\<close>.\<close>

record bible_verse =
  verse_num :: int
  text_b :: pystr

record darby_verse =
  verse_number :: int
  text_d :: pystr

text \<open>
  The \<open>for\<close> loop over the matches, with the list \<open>verses\<close> it appends to.
  extract_bible_data reads the first group (the digits of the \<open>id\<close> attribute), and
  converts it at the head of the loop body, before the text is looked at; an exception of
  \<open>int\<close> ends the function.
\<close>

fun bible_loop :: "(pystr \<times> pystr \<times> pystr) list \<Rightarrow> bible_verse list \<Rightarrow> py_error + bible_verse list" where
  "bible_loop [] verses = Inr verses"
| "bible_loop ((verse_num_str, display_num, t) # matches) verses =
     (case py_int verse_num_str of
        Inl e \<Rightarrow> Inl e
      | Inr vn \<Rightarrow>
          (let txt = clean_bible t
           in bible_loop matches
                (if txt \<noteq> [] then verses @ [\<lparr>verse_num = vn, text_b = txt\<rparr>] else verses)))"

definition BIBLE_MARKER :: pystr where
  \<open>BIBLE_MARKER = py ''id="V''\<close>

definition extract_verses_from_html_bible :: "pystr \<Rightarrow> py_error + bible_verse list" where
  "extract_verses_from_html_bible html_content =
     bible_loop (findall BIBLE_MARKER (strip_popups html_content)) []"

text \<open>
  extract_darby has no popup removal, anchors the pattern at the opening of the marker's
  tag, and reads the second group (the digits displayed); it converts it inside the
  \<open>if\<close>, for a text that is kept only.
\<close>

fun darby_loop :: "(pystr \<times> pystr \<times> pystr) list \<Rightarrow> darby_verse list \<Rightarrow> py_error + darby_verse list" where
  "darby_loop [] verses = Inr verses"
| "darby_loop ((verse_id, verse_no, verse_text) # matches) verses =
     (let txt = clean_darby verse_text
      in if txt \<noteq> []
         then (case py_int verse_no of
                 Inl e \<Rightarrow> Inl e
               | Inr n \<Rightarrow> darby_loop matches (verses @ [\<lparr>verse_number = n, text_d = txt\<rparr>]))
         else darby_loop matches verses)"

definition DARBY_MARKER :: pystr where
  \<open>DARBY_MARKER = py ''<span class="verse" id="V''\<close>

definition extract_verses_from_html_darby :: "pystr \<Rightarrow> py_error + darby_verse list" where
  "extract_verses_from_html_darby html_content =
     darby_loop (findall DARBY_MARKER html_content) []"

section \<open>File names, the book table and the batch drivers\<close>

text \<open>\<open>BOOK_NAMES\<close>, the same dictionary in both scripts.\<close>

definition BOOK_NAMES :: "pystr \<rightharpoonup> pystr" where
  "BOOK_NAMES = map_of (map (\<lambda>(k, v). (py k, py v))
    [
     (''GEN'', ''Genesis''), (''EXO'', ''Exodus''), (''LEV'', ''Leviticus''),
     (''NUM'', ''Numbers''), (''DEU'', ''Deuteronomy''), (''JOS'', ''Joshua''),
     (''JDG'', ''Judges''), (''RUT'', ''Ruth''), (''1SA'', ''1 Samuel''),
     (''2SA'', ''2 Samuel''), (''1KI'', ''1 Kings''), (''2KI'', ''2 Kings''),
     (''1CH'', ''1 Chronicles''), (''2CH'', ''2 Chronicles''), (''EZR'', ''Ezra''),
     (''NEH'', ''Nehemiah''), (''EST'', ''Esther''), (''JOB'', ''Job''),
     (''PSA'', ''Psalms''), (''PRO'', ''Proverbs''), (''ECC'', ''Ecclesiastes''),
     (''SNG'', ''Song of Solomon''), (''ISA'', ''Isaiah''), (''JER'', ''Jeremiah''),
     (''LAM'', ''Lamentations''), (''EZK'', ''Ezekiel''), (''DAN'', ''Daniel''),
     (''HOS'', ''Hosea''), (''JOL'', ''Joel''), (''AMO'', ''Amos''),
     (''OBA'', ''Obadiah''), (''JON'', ''Jonah''), (''MIC'', ''Micah''),
     (''NAM'', ''Nahum''), (''HAB'', ''Habakkuk''), (''ZEP'', ''Zephaniah''),
     (''HAG'', ''Haggai''), (''ZEC'', ''Zechariah''), (''MAL'', ''Malachi''),
     (''MAT'', ''Matthew''), (''MRK'', ''Mark''), (''LUK'', ''Luke''), (''JHN'', ''John''),
     (''ACT'', ''Acts''), (''ROM'', ''Romans''), (''1CO'', ''1 Corinthians''),
     (''2CO'', ''2 Corinthians''), (''GAL'', ''Galatians''), (''EPH'', ''Ephesians''),
     (''PHP'', ''Philippians''), (''COL'', ''Colossians''), (''1TH'', ''1 Thessalonians''),
     (''2TH'', ''2 Thessalonians''), (''1TI'', ''1 Timothy''), (''2TI'', ''2 Timothy''),
     (''TIT'', ''Titus''), (''PHM'', ''Philemon''), (''HEB'', ''Hebrews''),
     (''JAS'', ''James''), (''1PE'', ''1 Peter''), (''2PE'', ''2 Peter''),
     (''1JN'', ''1 John''), (''2JN'', ''2 John''), (''3JN'', ''3 John''),
     (''JUD'', ''Jude''), (''REV'', ''Revelation'')])"

definition OLD_TESTAMENT_BOOKS :: "pystr list" where
  "OLD_TESTAMENT_BOOKS = map py
    [
     ''Genesis'', ''Exodus'', ''Leviticus'', ''Numbers'', ''Deuteronomy'', ''Joshua'',
     ''Judges'', ''Ruth'', ''1 Samuel'', ''2 Samuel'', ''1 Kings'', ''2 Kings'',
     ''1 Chronicles'', ''2 Chronicles'', ''Ezra'', ''Nehemiah'', ''Esther'', ''Job'',
     ''Psalms'', ''Proverbs'', ''Ecclesiastes'', ''Song of Solomon'', ''Isaiah'',
     ''Jeremiah'', ''Lamentations'', ''Ezekiel'', ''Daniel'', ''Hosea'', ''Joel'',
     ''Amos'', ''Obadiah'', ''Jonah'', ''Micah'', ''Nahum'', ''Habakkuk'', ''Zephaniah'',
     ''Haggai'', ''Zechariah'', ''Malachi'']"

definition BOOK_ORDER :: "pystr list" where
  "BOOK_ORDER = map py
    [
     ''Genesis'', ''Exodus'', ''Leviticus'', ''Numbers'', ''Deuteronomy'', ''Joshua'',
     ''Judges'', ''Ruth'', ''1 Samuel'', ''2 Samuel'', ''1 Kings'', ''2 Kings'',
     ''1 Chronicles'', ''2 Chronicles'', ''Ezra'', ''Nehemiah'', ''Esther'', ''Job'',
     ''Psalms'', ''Proverbs'', ''Ecclesiastes'', ''Song of Solomon'', ''Isaiah'',
     ''Jeremiah'', ''Lamentations'', ''Ezekiel'', ''Daniel'', ''Hosea'', ''Joel'',
     ''Amos'', ''Obadiah'', ''Jonah'', ''Micah'', ''Nahum'', ''Habakkuk'', ''Zephaniah'',
     ''Haggai'', ''Zechariah'', ''Malachi'', ''Matthew'', ''Mark'', ''Luke'', ''John'',
     ''Acts'', ''Romans'', ''1 Corinthians'', ''2 Corinthians'', ''Galatians'',
     ''Ephesians'', ''Philippians'', ''Colossians'', ''1 Thessalonians'',
     ''2 Thessalonians'', ''1 Timothy'', ''2 Timothy'', ''Titus'', ''Philemon'',
     ''Hebrews'', ''James'', ''1 Peter'', ''2 Peter'', ''1 John'', ''2 John'', ''3 John'',
     ''Jude'', ''Revelation'']"

text \<open>\<open>str(n)\<close> as an f-string prints an integer.\<close>

function digits_of_nat :: "nat \<Rightarrow> pystr" where
  "digits_of_nat n = (if n < 10 then [48 + n] else digits_of_nat (n div 10) @ [48 + n mod 10])"
  by pat_completeness auto
termination
  by (relation "measure id") auto

definition py_str :: "int \<Rightarrow> pystr" where
  "py_str i = (if i < 0 then 45 # digits_of_nat (nat (- i)) else digits_of_nat (nat i))"

subsection \<open>\<open>parse_filename\<close>\<close>

text \<open>
  extract_bible_data: \<open>filename.replace('.htm', '')\<close>, then
  \<open>re.match(r'([A-Z0-9]+?)(\d+)$', name_no_ext)\<close>. The lazy first group grows from one
  character; at each length the greedy \<open>\d+\<close> takes the whole run of digits, after which
  \<open>$\<close> wants the end of the string or a newline that ends it. \<open>None\<close> is the
  result \<open>(None, None)\<close>; an exception of \<open>int\<close> leaves the function.
\<close>

definition parse_filename_bible :: "pystr \<Rightarrow> py_error + (pystr \<times> int) option" where
  "parse_filename_bible filename =
     (let name_no_ext = replace (py ''.htm'') [] filename;
          K = length (takeWhile is_AZ09 name_no_ext)
      in case find (\<lambda>k. takeWhile is_digit (drop k name_no_ext) \<noteq> [] \<and>
                         dropWhile is_digit (drop k name_no_ext) \<in> {[], [10]})
                   [1..<Suc K] of
           None \<Rightarrow> Inr None
         | Some k \<Rightarrow>
             (case py_int (takeWhile is_digit (drop k name_no_ext)) of
                Inl e \<Rightarrow> Inl e
              | Inr chapter \<Rightarrow> Inr (Some (take k name_no_ext, chapter))))"

text \<open>extract_darby: \<open>re.match(r'([A-Z0-9]{3})(\d+)\.htm', filename)\<close>.\<close>

definition parse_filename_darby :: "pystr \<Rightarrow> py_error + (pystr \<times> int) option" where
  "parse_filename_darby filename =
     (if 3 \<le> length filename \<and> list_all is_AZ09 (take 3 filename) \<and>
         takeWhile is_digit (drop 3 filename) \<noteq> [] \<and>
         prefix (py ''.htm'') (dropWhile is_digit (drop 3 filename))
      then (case py_int (takeWhile is_digit (drop 3 filename)) of
              Inl e \<Rightarrow> Inl e
            | Inr chapter \<Rightarrow> Inr (Some (take 3 filename, chapter)))
      else Inr None)"

subsection \<open>Which directory entries are chapter files\<close>

text \<open>
  \<open>re.match(r'[A-Z0-9]+\d+\.htm', f)\<close>: some non-empty run of the class, then a whole run
  of digits, then \<open>.htm\<close>; what follows is not looked at.
\<close>

definition is_chapter_file_bible :: "pystr \<Rightarrow> bool" where
  "is_chapter_file_bible f =
     list_ex (\<lambda>k. takeWhile is_digit (drop k f) \<noteq> [] \<and>
                   prefix (py ''.htm'') (dropWhile is_digit (drop k f)))
             [1..<Suc (length (takeWhile is_AZ09 f))]"

text \<open>\<open>re.match(r'[A-Z0-9]{3}\d+\.htm', f)\<close>.\<close>

definition is_chapter_file_darby :: "pystr \<Rightarrow> bool" where
  "is_chapter_file_darby f =
     (3 \<le> length f \<and> list_all is_AZ09 (take 3 f) \<and>
      takeWhile is_digit (drop 3 f) \<noteq> [] \<and>
      prefix (py ''.htm'') (dropWhile is_digit (drop 3 f)))"

subsection \<open>Files and records\<close>

text \<open>
  What \<open>open(path, 'r', encoding='utf-8')\<close> followed by \<open>f.read()\<close> gives for each name
  of the directory: the text, or the exception raised.
\<close>

type_synonym filesystem = "pystr \<Rightarrow> py_error + pystr"

record verse_obj =
  Book :: pystr
  Chapter :: int
  Verse :: int
  Text :: pystr
  Translation :: pystr
  Reference :: pystr
  FullText :: pystr
  Testament :: pystr
  BookNumber :: int

definition make_verse_obj :: "pystr \<Rightarrow> int \<Rightarrow> int \<Rightarrow> pystr \<Rightarrow> pystr \<Rightarrow> pystr \<Rightarrow> int \<Rightarrow> verse_obj" where
  "make_verse_obj book_name chapter vn txt translation testament book_number =
     \<lparr>Book = book_name, Chapter = chapter, Verse = vn, Text = txt,
      Translation = translation,
      Reference = book_name @ py '' '' @ py_str chapter @ py '':'' @ py_str vn,
      FullText = book_name @ py '' '' @ py_str chapter @ py '':'' @ py_str vn @ py '': '' @ txt,
      Testament = testament, BookNumber = book_number\<rparr>"

subsection \<open>\<open>main\<close> of extract_bible_data\<close>

definition extract_verses_from_file :: "filesystem \<Rightarrow> pystr \<Rightarrow> py_error + bible_verse list" where
  "extract_verses_from_file fs filepath =
     (case fs filepath of
        Inl e \<Rightarrow> Inl e
      | Inr html_content \<Rightarrow> extract_verses_from_html_bible html_content)"

text \<open>
  The loop over \<open>html_files\<close> with the list \<open>all_verses\<close>. A \<open>continue\<close> is the
  recursive call with \<open>all_verses\<close> unchanged; an exception of \<open>parse_filename\<close> or
  of \<open>extract_verses_from_file\<close> is caught nowhere and ends the run. The group of
  \<open>parse_filename\<close> is never the empty string, so \<open>not book_code\<close> is the case
  \<open>None\<close>.
\<close>

fun bible_files_loop :: "filesystem \<Rightarrow> pystr list \<Rightarrow> verse_obj list \<Rightarrow> py_error + verse_obj list" where
  "bible_files_loop fs [] all_verses = Inr all_verses"
| "bible_files_loop fs (filename # html_files) all_verses =
     (case parse_filename_bible filename of
        Inl e \<Rightarrow> Inl e
      | Inr None \<Rightarrow> bible_files_loop fs html_files all_verses
      | Inr (Some (book_code, chapter)) \<Rightarrow>
          (case BOOK_NAMES book_code of
             None \<Rightarrow> bible_files_loop fs html_files all_verses
           | Some book_name \<Rightarrow>
               (let testament = (if book_name \<in> set OLD_TESTAMENT_BOOKS then py ''Old''
                                 else py ''New'')
                in case extract_verses_from_file fs filename of
                     Inl e \<Rightarrow> Inl e
                   | Inr verses \<Rightarrow>
                       if verses = [] then bible_files_loop fs html_files all_verses
                       else bible_files_loop fs html_files
                              (all_verses @
                               map (\<lambda>verse_data.
                                      make_verse_obj book_name chapter (verse_num verse_data)
                                        (text_b verse_data) (py ''WEB'') testament 0)
                                   verses))))"

text \<open>
  \<open>main\<close>, from the entries \<open>os.listdir\<close> returns to the list handed to
  \<open>json.dump\<close>. The first chapter file is read once before the loop, for a printed
  test. What is printed and the writing of the output file are not part of the model.
\<close>

definition main_bible :: "filesystem \<Rightarrow> pystr list \<Rightarrow> py_error + verse_obj list" where
  "main_bible fs listing =
     (let html_files = sort (filter is_chapter_file_bible listing)
      in case (if html_files \<noteq> [] then extract_verses_from_file fs (hd html_files)
               else Inr []) of
           Inl e \<Rightarrow> Inl e
         | Inr test_verses \<Rightarrow> bible_files_loop fs html_files [])"

subsection \<open>\<open>main\<close> of extract_darby\<close>

definition get_testament :: "pystr \<Rightarrow> pystr" where
  "get_testament book_name =
     (if book_name \<in> set (take 39 BOOK_ORDER) then py ''Old'' else py ''New'')"

text \<open>\<open>BOOK_ORDER.index(book_name)\<close>, for a name that is in the list.\<close>

fun index_of :: "pystr list \<Rightarrow> pystr \<Rightarrow> nat" where
  "index_of [] x = 0"
| "index_of (y # ys) x = (if y = x then 0 else Suc (index_of ys x))"

text \<open>
  The loop of extract_darby calls \<open>parse_filename\<close> outside \<open>try\<close>, and reads and
  extracts inside it: \<open>except Exception\<close> prints and continues, with nothing of the
  file appended.
\<close>

fun darby_files_loop :: "filesystem \<Rightarrow> pystr list \<Rightarrow> verse_obj list \<Rightarrow> py_error + verse_obj list" where
  "darby_files_loop fs [] all_verses = Inr all_verses"
| "darby_files_loop fs (html_file # html_files) all_verses =
     (case parse_filename_darby html_file of
        Inl e \<Rightarrow> Inl e
      | Inr None \<Rightarrow> darby_files_loop fs html_files all_verses
      | Inr (Some (book_code, chapter)) \<Rightarrow>
          (case BOOK_NAMES book_code of
             None \<Rightarrow> darby_files_loop fs html_files all_verses
           | Some book_name \<Rightarrow>
               (let testament = get_testament book_name;
                    book_number = (if book_name \<in> set BOOK_ORDER
                                   then int (index_of BOOK_ORDER book_name) else 0)
                in case fs html_file of
                     Inl e \<Rightarrow> darby_files_loop fs html_files all_verses
                   | Inr html_content \<Rightarrow>
                       (case extract_verses_from_html_darby html_content of
                          Inl e \<Rightarrow> darby_files_loop fs html_files all_verses
                        | Inr verses \<Rightarrow>
                            darby_files_loop fs html_files
                              (all_verses @
                               map (\<lambda>verse.
                                      make_verse_obj book_name chapter (verse_number verse)
                                        (text_d verse) (py ''Darby'') testament book_number)
                                   verses)))))"

text \<open>The test read and extraction of the first file stand outside the \<open>try\<close>.\<close>

definition main_darby :: "filesystem \<Rightarrow> pystr list \<Rightarrow> py_error + verse_obj list" where
  "main_darby fs listing =
     (let html_files = sort (filter is_chapter_file_darby listing)
      in case (if html_files \<noteq> []
               then (case fs (hd html_files) of
                       Inl e \<Rightarrow> Inl e
                     | Inr test_content \<Rightarrow> extract_verses_from_html_darby test_content)
               else Inr []) of
           Inl e \<Rightarrow> Inl e
         | Inr test_verses \<Rightarrow> darby_files_loop fs html_files [])"

section \<open>Concrete inputs\<close>

text \<open>The fragment of the specification's scenario, as it is written there.\<close>

definition scenario_fragment :: pystr where
  \<open>scenario_fragment = py ''...id="V1">1&#160;</span>In the <i>beginning</i>.<span class="verse" id="V2">2&#160;</span>And the earth...''\<close>

text \<open>The same two verses with the first marker's tag opened and the block closed.\<close>

definition scenario_closed :: pystr where
  \<open>scenario_closed = py ''<span class="verse" id="V1">1&#160;</span>In the <i>beginning</i>.<span class="verse" id="V2">2&#160;</span>And the earth...</div>''\<close>

text \<open>A first verse whose body is markup and whitespace only.\<close>

definition empty_body_fragment :: pystr where
  \<open>empty_body_fragment = py ''<span class="verse" id="V1">1&#160;</span><i> </i> <span class="verse" id="V2">2&#160;</span>x</div>''\<close>

text \<open>A chapter file and a marker numbered zero.\<close>

definition zero_chapter_name :: pystr where
  "zero_chapter_name = py ''GEN00.htm''"

definition zero_marker :: pystr where
  \<open>zero_marker = py ''<span class="verse" id="V0">0&#160;</span>x</div>''\<close>

text \<open>
  Markers whose \<open>id\<close> digits differ from the digits displayed: as numbers too, and
  as strings only.
\<close>

definition mismatch_marker :: pystr where
  \<open>mismatch_marker = py ''<span class="verse" id="V1">2&#160;</span>x</div>''\<close>

definition padded_marker :: pystr where
  \<open>padded_marker = py ''<span class="verse" id="V01">1&#160;</span>x<span class="popup">n</span></div>''\<close>

text \<open>
  A file name whose book code is not a key of \<open>BOOK_NAMES\<close>, for each of the two
  \<open>parse_filename\<close>.
\<close>

definition unknown_book_bible :: "pystr \<Rightarrow> bool" where
  "unknown_book_bible f =
     (case parse_filename_bible f of
        Inr (Some (book_code, chapter)) \<Rightarrow> BOOK_NAMES book_code = None
      | _ \<Rightarrow> False)"

definition unknown_book_darby :: "pystr \<Rightarrow> bool" where
  "unknown_book_darby f =
     (case parse_filename_darby f of
        Inr (Some (book_code, chapter)) \<Rightarrow> BOOK_NAMES book_code = None
      | _ \<Rightarrow> False)"

text \<open>A directory in which no file can be read.\<close>

definition no_file_fs :: filesystem where
  "no_file_fs f = Inl OSError"

text \<open>
  A marker whose \<open>id\<close> attribute is a run of 4301 zeros, before the text \<open>x\<close>.
\<close>

definition long_id_fragment :: pystr where
  \<open>long_id_fragment =
     py ''<span class="verse" id="V'' @ replicate 4301 48 @ py ''">1&#160;</span>x</div>''\<close>

text \<open>
  The markers of the verses an extractor keeps: the two runs of digits of each match whose
  normalised text is not empty.
\<close>

definition kept_markers_bible :: "pystr \<Rightarrow> (pystr \<times> pystr) list" where
  "kept_markers_bible h =
     map (\<lambda>(a, d, t). (a, d))
       (filter (\<lambda>(a, d, t). clean_bible t \<noteq> []) (findall BIBLE_MARKER (strip_popups h)))"

definition kept_markers_darby :: "pystr \<Rightarrow> (pystr \<times> pystr) list" where
  "kept_markers_darby h =
     map (\<lambda>(a, d, t). (a, d))
       (filter (\<lambda>(a, d, t). clean_darby t \<noteq> []) (findall DARBY_MARKER h))"

text \<open>A directory in which \<open>GEN02.htm\<close> cannot be read and every other file is one verse.\<close>

definition unreadable_fs :: filesystem where
  \<open>unreadable_fs f =
     (if f = py ''GEN02.htm'' then Inl OSError
      else Inr (py ''<span class="verse" id="V1">1&#160;</span>In the beginning</div>''))\<close>

text \<open>Two verses whose markers stand in the order 2, 1.\<close>

definition reversed_fragment :: pystr where
  \<open>reversed_fragment = py ''<span class="verse" id="V2">2&#160;</span>b<span class="verse" id="V1">1&#160;</span>a</div>''\<close>

text \<open>A verse with a footnote popup, and a verse with an encoded less-than sign.\<close>

definition popup_fragment :: pystr where
  \<open>popup_fragment = py ''<span class="verse" id="V1">1&#160;</span>Hello<span class="popup">note</span> world</div>''\<close>

definition popup_fragment_other :: pystr where
  \<open>popup_fragment_other = py ''<span class="verse" id="V1">1&#160;</span>Hello<span class="popup"></span> world</div>''\<close>


text \<open>
  Text in which whitespace is normal: every whitespace character is a space, and none is
  followed by another.
\<close>

fun ws_normal :: "pystr \<Rightarrow> bool" where
  "ws_normal [] = True"
| "ws_normal [c] = (is_space c \<longrightarrow> c = SP)"
| "ws_normal (c # d # cs) = ((is_space c \<longrightarrow> c = SP \<and> \<not> is_space d) \<and> ws_normal (d # cs))"

text \<open>
  Strings with no tag and no entity of the seven that a normalisation turns into one:
  a footnote glyph, or a square bracket, stands inside \<open>&lt;\<close>.
\<close>

definition entity_inside_glyph :: pystr where
  "entity_inside_glyph = py ''&l'' @ [8224] @ py ''t;''"

definition entity_inside_bracket :: pystr where
  "entity_inside_bracket = py ''&l[t;''"

section \<open>Evaluation and basic facts\<close>

text \<open>Below the second run of digits the digit table is the ASCII one.\<close>

lemma digit_value_ascii:
  "c < 1632 \<Longrightarrow> digit_value c = (if 48 \<le> c \<and> c \<le> 57 then Some (c - 48) else None)"
  by (simp add: digit_value_def digit_starts_def)

lemma is_digit_ascii: "c < 1632 \<Longrightarrow> is_digit c = (48 \<le> c \<and> c \<le> 57)"
  by (simp add: is_digit_def digit_value_ascii)

lemmas eval_defs = py_def LT_def GT_def SP_def AMP_def is_space_def digit_value_ascii
  is_digit_ascii py_int_def digits_value_def int_max_str_digits_def POPUP_OPEN_def
  SPAN_CLOSE_def VERSE_OPEN_def DIV_CLOSE_def strip_prefix_def match_verse_def
  decode_entities_def remove_footnote_markers_def remove_square_brackets_def clean_bible_def
  clean_darby_def py_strip_def BIBLE_MARKER_def DARBY_MARKER_def
  extract_verses_from_html_bible_def extract_verses_from_html_darby_def

text \<open>
  The two loops return when every conversion they make succeeds, and then they have
  appended, in order, one record for each match whose text is kept.
\<close>

lemma bible_loop_eq:
  "bible_loop ms acc =
     (if \<forall>(a, d, t) \<in> set ms. length a \<le> int_max_str_digits
      then Inr (acc @ map (\<lambda>(a, d, t). \<lparr>verse_num = digits_value a, text_b = clean_bible t\<rparr>)
                       (filter (\<lambda>(a, d, t). clean_bible t \<noteq> []) ms))
      else Inl ValueError)"
proof (induction ms arbitrary: acc)
  case Nil
  show ?case by simp
next
  case (Cons m ms)
  obtain a d t where m: "m = (a, d, t)" by (cases m)
  show ?case
  proof (cases "int_max_str_digits < length a")
    case True
    then show ?thesis by (auto simp: m py_int_def)
  next
    case False
    then have "bible_loop (m # ms) acc =
        bible_loop ms (if clean_bible t \<noteq> []
                       then acc @ [\<lparr>verse_num = digits_value a, text_b = clean_bible t\<rparr>]
                       else acc)"
      by (simp add: m py_int_def Let_def)
    with False show ?thesis
      by (simp add: Cons.IH m)
  qed
qed

lemma darby_loop_eq:
  "darby_loop ms acc =
     (if \<forall>(a, d, t) \<in> set ms. clean_darby t \<noteq> [] \<longrightarrow> length d \<le> int_max_str_digits
      then Inr (acc @ map (\<lambda>(a, d, t). \<lparr>verse_number = digits_value d, text_d = clean_darby t\<rparr>)
                       (filter (\<lambda>(a, d, t). clean_darby t \<noteq> []) ms))
      else Inl ValueError)"
proof (induction ms arbitrary: acc)
  case Nil
  show ?case by simp
next
  case (Cons m ms)
  obtain a d t where m: "m = (a, d, t)" by (cases m)
  show ?case
  proof (cases "clean_darby t = []")
    case True
    then have "darby_loop (m # ms) acc = darby_loop ms acc"
      by (simp add: m)
    with True show ?thesis
      by (simp add: Cons.IH m)
  next
    case keep: False
    show ?thesis
    proof (cases "int_max_str_digits < length d")
      case True
      with keep show ?thesis by (auto simp: m py_int_def)
    next
      case False
      with keep have "darby_loop (m # ms) acc =
          darby_loop ms (acc @ [\<lparr>verse_number = digits_value d, text_d = clean_darby t\<rparr>])"
        by (simp add: m py_int_def)
      with keep False show ?thesis
        by (simp add: Cons.IH m)
    qed
  qed
qed

lemma digits_value_foldl_nonneg:
  "0 \<le> n \<Longrightarrow>
   0 \<le> foldl (\<lambda>n c. 10 * n + int (case digit_value c of Some v \<Rightarrow> v | None \<Rightarrow> 0)) n s"
  by (induction s arbitrary: n) auto

lemma digits_value_nonneg: "0 \<le> digits_value s"
  unfolding digits_value_def by (rule digits_value_foldl_nonneg) simp

lemma py_int_nonneg: "py_int s = Inr n \<Longrightarrow> 0 \<le> n"
  by (auto simp: py_int_def digits_value_nonneg split: if_splits)

section \<open>Facts about the string functions\<close>

subsection \<open>Steps of the normalisation that have nothing to do\<close>

lemma strip_tags_id: "LT \<notin> set s \<Longrightarrow> strip_tags s = s"
  by (induction s) auto

lemma replace_id: "p \<notin> set s \<Longrightarrow> replace (p # ps) rep s = s"
  by (induction s) auto

lemma decode_entities_id: "AMP \<notin> set s \<Longrightarrow> decode_entities s = s"
  by (simp add: decode_entities_def py_def AMP_def replace_id)

lemma replace_single: "replace [c] [] s = filter (\<lambda>x. x \<noteq> c) s"
  by (induction s) auto

lemma remove_square_brackets_filter:
  "remove_square_brackets s = filter (\<lambda>x. x \<noteq> 91 \<and> x \<noteq> 93) s"
  by (simp add: remove_square_brackets_def py_def replace_single conj_commute)

lemma set_collapse_ws: "set (collapse_ws s) \<subseteq> insert SP (set s)"
proof (induction s rule: collapse_ws.induct)
  case 1
  show ?case by simp
next
  case (2 c cs)
  show ?case
  proof (cases "is_space c")
    case True
    with 2(1) have "set (collapse_ws (dropWhile is_space cs)) \<subseteq> insert SP (set cs)"
      using set_dropWhileD [of _ is_space cs] by blast
    with True show ?thesis by auto
  next
    case False
    with 2(2) show ?thesis by auto
  qed
qed

lemma set_py_strip: "set (py_strip s) \<subseteq> set s"
proof
  fix x assume "x \<in> set (py_strip s)"
  then have "x \<in> set (dropWhile is_space (rev (dropWhile is_space s)))"
    by (simp add: py_strip_def)
  then have "x \<in> set (rev (dropWhile is_space s))"
    by (rule set_dropWhileD)
  then have "x \<in> set (dropWhile is_space s)"
    by simp
  then show "x \<in> set s"
    by (rule set_dropWhileD)
qed

lemma ws_normal_Cons: "\<not> is_space c \<Longrightarrow> ws_normal xs \<Longrightarrow> ws_normal (c # xs)"
  by (cases xs) auto

lemma ws_normal_tl: "ws_normal (c # xs) \<Longrightarrow> ws_normal xs"
  by (cases xs) auto

lemma ws_normal_collapse: "ws_normal (collapse_ws s)"
proof (induction s rule: collapse_ws.induct)
  case 1
  show ?case by simp
next
  case (2 c cs)
  show ?case
  proof (cases "is_space c")
    case True
    note IH = 2(1) [OF True]
    show ?thesis
    proof (cases "dropWhile is_space cs")
      case Nil
      with True show ?thesis by (simp del: dropWhile_eq_Nil_conv)
    next
      case (Cons d ds)
      then have d: "\<not> is_space d"
        using hd_dropWhile [of is_space cs] by simp
      from IH Cons d have "ws_normal (d # collapse_ws ds)" by simp
      with True Cons d show ?thesis by simp
    qed
  next
    case False
    with 2(2) show ?thesis by (simp add: ws_normal_Cons)
  qed
qed

lemma collapse_ws_normal: "ws_normal t \<Longrightarrow> collapse_ws t = t"
  by (induction t rule: ws_normal.induct) auto

lemma ws_normal_suffix: "ws_normal t \<Longrightarrow> ws_normal (dropWhile P t)"
  by (induction t) (auto dest: ws_normal_tl)

lemma ws_normal_prefix: "ws_normal (a @ b) \<Longrightarrow> ws_normal a"
proof (induction a rule: ws_normal.induct)
  case 1
  show ?case by simp
next
  case (2 c)
  then show ?case by (cases b) auto
next
  case (3 c d cs)
  then show ?case by auto
qed

lemma rev_dropWhile_rev_prefix:
  "t = rev (dropWhile P (rev t)) @ rev (takeWhile P (rev t))"
proof -
  have "rev (takeWhile P (rev t) @ dropWhile P (rev t)) = rev (rev t)"
    by (simp only: takeWhile_dropWhile_id)
  then have "rev (dropWhile P (rev t)) @ rev (takeWhile P (rev t)) = t"
    by (simp only: rev_append rev_rev_ident)
  then show ?thesis by (rule sym)
qed

lemma ws_normal_strip: "ws_normal t \<Longrightarrow> ws_normal (py_strip t)"
proof -
  assume "ws_normal t"
  then have a: "ws_normal (dropWhile is_space t)"
    by (rule ws_normal_suffix)
  have "dropWhile is_space t =
      py_strip t @ rev (takeWhile is_space (rev (dropWhile is_space t)))"
    unfolding py_strip_def by (rule rev_dropWhile_rev_prefix)
  with a show ?thesis
    by (metis ws_normal_prefix)
qed

lemma py_strip_idem: "py_strip (py_strip s) = py_strip s"
proof -
  define y where "y = dropWhile is_space s"
  define z where "z = rev (dropWhile is_space (rev y))"
  have yz: "y = z @ rev (takeWhile is_space (rev y))"
    unfolding z_def by (rule rev_dropWhile_rev_prefix)
  have hy: "y = [] \<or> \<not> is_space (hd y)"
    unfolding y_def using hd_dropWhile [of is_space s] by blast
  have "z = [] \<or> \<not> is_space (hd z)"
  proof (cases z)
    case Nil
    then show ?thesis by simp
  next
    case (Cons a as)
    with yz have "hd y = hd z" "y \<noteq> []" by (metis hd_append2 list.distinct(1), auto)
    with hy show ?thesis by simp
  qed
  then have dz: "dropWhile is_space z = z"
    by (simp add: dropWhile_eq_self_iff)
  have "py_strip z = rev (dropWhile is_space (rev z))"
    by (simp add: py_strip_def dz)
  also have "\<dots> = z"
    by (simp add: z_def)
  finally show ?thesis
    by (simp add: py_strip_def z_def y_def)
qed
lemma set_strip_collapse: "set (py_strip (collapse_ws t)) \<subseteq> insert SP (set t)"
  using set_py_strip [of "collapse_ws t"] set_collapse_ws [of t] by blast

subsection \<open>Where the characters of a replaced string come from\<close>










subsection \<open>Tag removal leaves no tag\<close>



subsection \<open>The text inside a popup\<close>

lemma prefix_across:
  assumes "x0 \<notin> set (tl pat)" and "a \<noteq> []"
  shows "prefix pat (a @ x0 # xs) \<longleftrightarrow> prefix pat a"
proof
  assume "prefix pat a"
  then show "prefix pat (a @ x0 # xs)" by (rule prefix_prefix)
next
  assume "prefix pat (a @ x0 # xs)"
  then consider "prefix pat a" | us where "pat = a @ us" "prefix us (x0 # xs)"
    by (auto simp: prefix_append)
  then show "prefix pat a"
  proof cases
    case 1
    then show ?thesis .
  next
    case 2
    show ?thesis
    proof (cases us)
      case Nil
      with 2 show ?thesis by simp
    next
      case (Cons u us')
      with 2(2) have "u = x0" by simp
      with 2(1) Cons assms(2) have "x0 \<in> set (tl pat)"
        by (cases a) auto
      with assms(1) show ?thesis by simp
    qed
  qed
qed

lemma prefix_short:
  assumes "prefix p (xs @ ys)" and "length p \<le> length xs"
  shows "prefix p xs"
proof -
  from assms(1) consider "prefix p xs" | us where "p = xs @ us"
    by (auto simp: prefix_append)
  then show ?thesis
  proof cases
    case 1
    then show ?thesis .
  next
    case 2
    with assms(2) show ?thesis by simp
  qed
qed

lemma drop_Cons_append:
  "n \<le> Suc (length u) \<Longrightarrow> drop n (c # u @ y) = drop n (c # u) @ y"
  using drop_append [of n "c # u" y] by simp

lemma find_after_self: "pat \<noteq> [] \<Longrightarrow> find_after pat (pat @ post) = Some post"
  by (cases pat) auto

lemma occurs_Cons: "occurs pat (c # cs) = (prefix pat (c # cs) \<or> occurs pat cs)"
  by simp

lemma find_after_inner:
  assumes "pat \<noteq> []" and "\<not> occurs pat (inner @ butlast pat)"
  shows "find_after pat (inner @ pat @ post) = Some post"
  using assms(2)
proof (induction inner)
  case Nil
  from assms(1) show ?case by (simp add: find_after_self)
next
  case (Cons c i)
  from Cons.prems have np: "\<not> prefix pat ((c # i) @ butlast pat)"
    and no: "\<not> occurs pat (i @ butlast pat)"
    by simp_all
  have "\<not> prefix pat ((c # i) @ pat @ post)"
  proof
    assume "prefix pat ((c # i) @ pat @ post)"
    moreover have "(c # i) @ pat @ post = ((c # i) @ butlast pat) @ ([last pat] @ post)"
      using assms(1) by (metis append.assoc append_butlast_last_id)
    ultimately have "prefix pat (((c # i) @ butlast pat) @ ([last pat] @ post))"
      by (simp only:)
    then have "prefix pat ((c # i) @ butlast pat)"
      by (rule prefix_short) simp
    with np show False ..
  qed
  with Cons.IH [OF no] show ?case by simp
qed

lemma find_after_open: "find_after SPAN_CLOSE (POPUP_OPEN @ y) = find_after SPAN_CLOSE y"
  by (simp add: POPUP_OPEN_def SPAN_CLOSE_def py_def)

lemma span_close_facts: "SPAN_CLOSE \<noteq> []" "LT \<notin> set (tl SPAN_CLOSE)"
  by (simp_all add: SPAN_CLOSE_def py_def LT_def)

lemma popup_open_facts:
  "POPUP_OPEN = LT # tl POPUP_OPEN" "LT \<notin> set (tl POPUP_OPEN)" "length POPUP_OPEN = 20"
  by (simp_all add: POPUP_OPEN_def py_def LT_def)

lemma find_after_before:
  assumes "\<not> occurs SPAN_CLOSE (inner @ butlast SPAN_CLOSE)"
  shows "find_after SPAN_CLOSE (u @ POPUP_OPEN @ inner @ SPAN_CLOSE @ post) =
     (case find_after SPAN_CLOSE u of
        Some r \<Rightarrow> Some (r @ POPUP_OPEN @ inner @ SPAN_CLOSE @ post)
      | None \<Rightarrow> Some post)"
proof (induction u)
  case Nil
  show ?case
    by (simp add: find_after_open find_after_inner [OF span_close_facts(1) assms]
        span_close_facts(1))
next
  case (Cons c u)
  have eq: "(c # u) @ POPUP_OPEN @ inner @ SPAN_CLOSE @ post =
      (c # u) @ LT # (tl POPUP_OPEN @ inner @ SPAN_CLOSE @ post)"
    using popup_open_facts(1) by (metis append_Cons)
  have p: "prefix SPAN_CLOSE ((c # u) @ POPUP_OPEN @ inner @ SPAN_CLOSE @ post) \<longleftrightarrow>
      prefix SPAN_CLOSE (c # u)"
    unfolding eq by (rule prefix_across [OF span_close_facts(2)]) simp
  show ?case
  proof (cases "prefix SPAN_CLOSE (c # u)")
    case True
    then have "length SPAN_CLOSE \<le> length (c # u)"
      by (rule prefix_length_le)
    with True p show ?thesis by (simp add: drop_Cons_append)
  next
    case False
    with p Cons.IH show ?thesis by simp
  qed
qed

lemma strip_popups_inner:
  assumes "\<not> occurs SPAN_CLOSE (inner @ butlast SPAN_CLOSE)"
    and "\<not> occurs SPAN_CLOSE (inner' @ butlast SPAN_CLOSE)"
  shows "strip_popups (pre @ POPUP_OPEN @ inner @ SPAN_CLOSE @ post) =
         strip_popups (pre @ POPUP_OPEN @ inner' @ SPAN_CLOSE @ post)"
proof (induction pre rule: length_induct)
  case (1 pre)
  let ?X = "POPUP_OPEN @ inner @ SPAN_CLOSE @ post"
  let ?X' = "POPUP_OPEN @ inner' @ SPAN_CLOSE @ post"
  have open_Cons: "POPUP_OPEN @ y = LT # (tl POPUP_OPEN @ y)" for y
    using popup_open_facts(1) by (metis append_Cons)
  show ?case
  proof (cases pre)
    case Nil
    have "strip_popups ?X = strip_popups post"
      using find_after_inner [OF span_close_facts(1) assms(1), of post]
      by (subst open_Cons, subst strip_popups.simps(2)) (simp add: open_Cons [symmetric])
    moreover have "strip_popups ?X' = strip_popups post"
      using find_after_inner [OF span_close_facts(1) assms(2), of post]
      by (subst open_Cons, subst strip_popups.simps(2)) (simp add: open_Cons [symmetric])
    ultimately show ?thesis using Nil by simp
  next
    case (Cons c p)
    have p: "prefix POPUP_OPEN ((c # p) @ POPUP_OPEN @ y) \<longleftrightarrow> prefix POPUP_OPEN (c # p)" for y
      unfolding open_Cons by (rule prefix_across [OF popup_open_facts(2)]) simp
    show ?thesis
    proof (cases "prefix POPUP_OPEN (c # p)")
      case False
      from 1 Cons have "strip_popups (p @ ?X) = strip_popups (p @ ?X')"
        by simp
      with False p Cons show ?thesis by simp
    next
      case True
      then have len: "length POPUP_OPEN \<le> length (c # p)"
        by (rule prefix_length_le)
      define u where "u = drop (length POPUP_OPEN) (c # p)"
      have d: "drop (length POPUP_OPEN) (c # p @ y) = u @ y" for y
        using len by (simp add: u_def drop_Cons_append)
      have lu: "length u < length pre"
        using Cons popup_open_facts(3) by (simp add: u_def)
      have fa: "find_after pat s = Some r \<Longrightarrow> length r \<le> length s" for pat s r
        by (induction s) (auto split: if_splits)
      show ?thesis
      proof (cases "find_after SPAN_CLOSE u")
        case None
        have "strip_popups ((c # p) @ ?X) = strip_popups post"
          using True p [of "inner @ SPAN_CLOSE @ post"] None
            find_after_before [OF assms(1), of u post] d [of ?X]
          by (simp del: drop_append)
        moreover have "strip_popups ((c # p) @ ?X') = strip_popups post"
          using True p [of "inner' @ SPAN_CLOSE @ post"] None
            find_after_before [OF assms(2), of u post] d [of ?X']
          by (simp del: drop_append)
        ultimately show ?thesis using Cons by simp
      next
        case (Some r)
        from fa [OF Some] lu have "length r < length pre" by simp
        with 1 have IH: "strip_popups (r @ ?X) = strip_popups (r @ ?X')"
          by simp
        have "strip_popups ((c # p) @ ?X) = strip_popups (r @ ?X)"
          using True p [of "inner @ SPAN_CLOSE @ post"] Some
            find_after_before [OF assms(1), of u post] d [of ?X]
          by (simp del: drop_append)
        moreover have "strip_popups ((c # p) @ ?X') = strip_popups (r @ ?X')"
          using True p [of "inner' @ SPAN_CLOSE @ post"] Some
            find_after_before [OF assms(2), of u post] d [of ?X']
          by (simp del: drop_append)
        ultimately show ?thesis using Cons IH by simp
      qed
    qed
  qed
qed

section \<open>Footnote popups\<close>

lemma bible_popup_fragment:
  "extract_verses_from_html_bible popup_fragment =
     Inr [\<lparr>verse_num = 1, text_b = py ''Hello world''\<rparr>]"
  by (simp add: popup_fragment_def eval_defs)

lemma darby_popup_fragment:
  "extract_verses_from_html_darby popup_fragment =
     Inr [\<lparr>verse_number = 1, text_d = py ''Hello note world''\<rparr>]"
  by (simp add: popup_fragment_def eval_defs)

text \<open>
  C1, as claimed, fails: extract_darby removes no popup, so the text \<open>note\<close> of the
  popup stands in the text of the verse it returns.
\<close>

theorem C1_counterexample:
  "extract_verses_from_html_darby popup_fragment =
     Inr [\<lparr>verse_number = 1, text_d = py ''Hello note world''\<rparr>] \<and>
   occurs (py ''note'') (py ''Hello note world'')"
  by (simp add: darby_popup_fragment) (simp add: py_def)

text \<open>
  C1, amended: in extract_bible_data, what stands between an opening
  \<open><span class="popup">\<close> and the first \<open></span>\<close> after it has no part in the
  records returned: any two fragments that differ only in such a text give the same
  records. (extract_darby removes no popup.)
\<close>

theorem C1_popup_text_irrelevant:
  assumes "\<not> occurs SPAN_CLOSE (inner @ butlast SPAN_CLOSE)"
    and "\<not> occurs SPAN_CLOSE (inner' @ butlast SPAN_CLOSE)"
  shows "extract_verses_from_html_bible (pre @ POPUP_OPEN @ inner @ SPAN_CLOSE @ post) =
         extract_verses_from_html_bible (pre @ POPUP_OPEN @ inner' @ SPAN_CLOSE @ post)"
  unfolding extract_verses_from_html_bible_def
  by (simp only: strip_popups_inner [OF assms])

text \<open>The popup \<open>note\<close> and an empty popup give the same verse, without the note.\<close>

theorem C1_popup_text_irrelevant_witness:
  "\<not> occurs SPAN_CLOSE (py ''note'' @ butlast SPAN_CLOSE) \<and>
   \<not> occurs SPAN_CLOSE ([] @ butlast SPAN_CLOSE) \<and>
   extract_verses_from_html_bible popup_fragment =
     extract_verses_from_html_bible popup_fragment_other \<and>
   extract_verses_from_html_bible popup_fragment =
     Inr [\<lparr>verse_num = 1, text_b = py ''Hello world''\<rparr>]"
proof -
  have h1: "\<not> occurs SPAN_CLOSE (py ''note'' @ butlast SPAN_CLOSE)"
    by (simp add: SPAN_CLOSE_def py_def)
  have h2: "\<not> occurs SPAN_CLOSE ([] @ butlast SPAN_CLOSE)"
    by (simp add: SPAN_CLOSE_def py_def)
  have e1: "popup_fragment =
      py ''<span class=\"verse\" id=\"V1\">1&#160;</span>Hello'' @ POPUP_OPEN @ py ''note'' @
      SPAN_CLOSE @ py '' world</div>''"
    by (simp add: popup_fragment_def POPUP_OPEN_def SPAN_CLOSE_def py_def)
  have e2: "popup_fragment_other =
      py ''<span class=\"verse\" id=\"V1\">1&#160;</span>Hello'' @ POPUP_OPEN @ [] @
      SPAN_CLOSE @ py '' world</div>''"
    by (simp add: popup_fragment_other_def POPUP_OPEN_def SPAN_CLOSE_def py_def)
  from C1_popup_text_irrelevant [OF h1 h2,
      of "py ''<span class=\"verse\" id=\"V1\">1&#160;</span>Hello''" "py '' world</div>''"]
  have "extract_verses_from_html_bible popup_fragment =
      extract_verses_from_html_bible popup_fragment_other"
    by (simp only: e1 e2)
  with h1 h2 bible_popup_fragment show ?thesis
    by (simp only: simp_thms)
qed

section \<open>Angle brackets in the text\<close>








section \<open>The scenario of two verses\<close>

lemma bible_scenario_fragment:
  "extract_verses_from_html_bible scenario_fragment =
     Inr [\<lparr>verse_num = 1, text_b = py ''In the beginning .''\<rparr>]"
  by (simp add: scenario_fragment_def eval_defs)

lemma darby_scenario_fragment: "extract_verses_from_html_darby scenario_fragment = Inr []"
  by (simp add: scenario_fragment_def eval_defs)

lemma bible_scenario_closed:
  "extract_verses_from_html_bible scenario_closed =
     Inr [\<lparr>verse_num = 1, text_b = py ''In the beginning .''\<rparr>,
      \<lparr>verse_num = 2, text_b = py ''And the earth...''\<rparr>]"
  by (simp add: scenario_closed_def eval_defs)

lemma darby_scenario_closed:
  "extract_verses_from_html_darby scenario_closed =
     Inr [\<lparr>verse_number = 1, text_d = py ''In the beginning .''\<rparr>,
      \<lparr>verse_number = 2, text_d = py ''And the earth...''\<rparr>]"
  by (simp add: scenario_closed_def eval_defs)

text \<open>
  C3, as claimed, fails: on the scenario's fragment neither extractor returns the two
  records \<open>(1, "In the beginning.")\<close> and \<open>(2, "And the earth...")\<close>. The last verse
  has no marker and no \<open></div>\<close> after it, so the pattern's lookahead fails and the
  verse is not matched; and each tag becomes a space, which stays before the full stop.
\<close>

theorem C3_counterexample:
  "extract_verses_from_html_bible scenario_fragment \<noteq>
     Inr [\<lparr>verse_num = 1, text_b = py ''In the beginning.''\<rparr>,
      \<lparr>verse_num = 2, text_b = py ''And the earth...''\<rparr>] \<and>
   extract_verses_from_html_darby scenario_fragment \<noteq>
     Inr [\<lparr>verse_number = 1, text_d = py ''In the beginning.''\<rparr>,
      \<lparr>verse_number = 2, text_d = py ''And the earth...''\<rparr>]"
  by (simp add: bible_scenario_fragment darby_scenario_fragment)

text \<open>
  C3, amended: with the first marker's tag opened and \<open></div>\<close> after the last verse,
  both extractors return exactly the records \<open>(1, "In the beginning .")\<close> and
  \<open>(2, "And the earth...")\<close>; on the fragment as written, where nothing follows the
  last verse, extract_bible_data returns the first record only and extract_darby, whose
  pattern starts at the marker's opening tag, returns none.
\<close>

theorem C3_scenario:
  "extract_verses_from_html_bible scenario_closed =
     Inr [\<lparr>verse_num = 1, text_b = py ''In the beginning .''\<rparr>,
      \<lparr>verse_num = 2, text_b = py ''And the earth...''\<rparr>] \<and>
   extract_verses_from_html_darby scenario_closed =
     Inr [\<lparr>verse_number = 1, text_d = py ''In the beginning .''\<rparr>,
      \<lparr>verse_number = 2, text_d = py ''And the earth...''\<rparr>] \<and>
   extract_verses_from_html_bible scenario_fragment =
     Inr [\<lparr>verse_num = 1, text_b = py ''In the beginning .''\<rparr>] \<and>
   extract_verses_from_html_darby scenario_fragment = Inr []"
  by (simp only: bible_scenario_fragment darby_scenario_fragment bible_scenario_closed
      darby_scenario_closed simp_thms)

section \<open>Which matches become records\<close>

lemma empty_body_findall_bible:
  "findall BIBLE_MARKER (strip_popups empty_body_fragment) =
     [(py ''1'', py ''1'', py ''<i> </i> ''), (py ''2'', py ''2'', py ''x'')]"
  by (simp add: empty_body_fragment_def eval_defs)

lemma empty_body_findall_darby:
  "findall DARBY_MARKER empty_body_fragment =
     [(py ''1'', py ''1'', py ''<i> </i> ''), (py ''2'', py ''2'', py ''x'')]"
  by (simp add: empty_body_fragment_def eval_defs)

lemma empty_body_clean:
  "clean_bible (py ''<i> </i> '') = [] \<and> clean_darby (py ''<i> </i> '') = [] \<and>
   clean_bible (py ''x'') = py ''x'' \<and> clean_darby (py ''x'') = py ''x''"
  by (simp add: eval_defs)

text \<open>A run of zeros is a run of digits, and holds no \<open><\<close>.\<close>

lemma takeWhile_zeros:
  "takeWhile is_digit (replicate n 48 @ r) = replicate n 48 @ takeWhile is_digit r"
  by (rule takeWhile_append2) (simp add: is_digit_ascii)

lemma dropWhile_zeros: "dropWhile is_digit (replicate n 48 @ r) = dropWhile is_digit r"
  by (rule dropWhile_append2) (simp add: is_digit_ascii)

lemma strip_popups_zeros: "strip_popups (replicate n 48 @ r) = replicate n 48 @ strip_popups r"
proof (induction n)
  case 0
  show ?case by simp
next
  case (Suc n)
  have "\<not> prefix POPUP_OPEN (48 # replicate n 48 @ r)"
    by (simp add: POPUP_OPEN_def py_def)
  with Suc show ?case by simp
qed

lemma long_id_findall_bible:
  "findall BIBLE_MARKER (strip_popups long_id_fragment) =
     [(replicate 4301 48, py ''1'', py ''x'')]"
  by (simp add: long_id_fragment_def eval_defs takeWhile_zeros dropWhile_zeros
      strip_popups_zeros)

lemma long_id_findall_darby:
  "findall DARBY_MARKER long_id_fragment = [(replicate 4301 48, py ''1'', py ''x'')]"
  by (simp add: long_id_fragment_def eval_defs takeWhile_zeros dropWhile_zeros)

text \<open>
  C4, as claimed, fails: in the fragment whose marker has an \<open>id\<close> of 4301 digits the
  marker is matched and its text \<open>x\<close> is not empty, yet \<open>int\<close> raises
  \<open>ValueError\<close> in extract_bible_data and no record is returned.
\<close>

theorem C4_counterexample:
  "findall BIBLE_MARKER (strip_popups long_id_fragment) =
     [(replicate 4301 48, py ''1'', py ''x'')] \<and>
   clean_bible (py ''x'') \<noteq> [] \<and>
   extract_verses_from_html_bible long_id_fragment = Inl ValueError"
proof -
  have "bible_loop [(replicate 4301 48, py ''1'', py ''x'')] [] = Inl ValueError"
    by (simp add: py_int_def int_max_str_digits_def)
  then show ?thesis
    by (simp add: extract_verses_from_html_bible_def long_id_findall_bible empty_body_clean)
      (simp add: py_def)
qed

text \<open>
  C4, amended: an extractor returns exactly when every conversion by \<open>int\<close> it makes
  stays within the 4300 digits the interpreter converts: in extract_bible_data the
  \<open>id\<close> digits of every matched marker, in extract_darby the displayed digits of every
  marker whose text is kept. When it returns, it returns, in the order of the matches,
  one record for exactly those matched markers whose normalised text is not empty, and so
  every record returned has a non-empty text; otherwise it raises \<open>ValueError\<close> and
  returns no record.
\<close>

theorem C4_record_iff_nonempty:
  "extract_verses_from_html_bible h =
     (if \<forall>(a, d, t) \<in> set (findall BIBLE_MARKER (strip_popups h)).
           length a \<le> int_max_str_digits
      then Inr (map (\<lambda>(a, d, t). \<lparr>verse_num = digits_value a, text_b = clean_bible t\<rparr>)
                  (filter (\<lambda>(a, d, t). clean_bible t \<noteq> [])
                     (findall BIBLE_MARKER (strip_popups h))))
      else Inl ValueError) \<and>
   extract_verses_from_html_darby h =
     (if \<forall>(a, d, t) \<in> set (findall DARBY_MARKER h).
           clean_darby t \<noteq> [] \<longrightarrow> length d \<le> int_max_str_digits
      then Inr (map (\<lambda>(a, d, t). \<lparr>verse_number = digits_value d, text_d = clean_darby t\<rparr>)
                  (filter (\<lambda>(a, d, t). clean_darby t \<noteq> []) (findall DARBY_MARKER h)))
      else Inl ValueError) \<and>
   (extract_verses_from_html_bible h = Inr rs \<longrightarrow> (\<forall>r \<in> set rs. text_b r \<noteq> [])) \<and>
   (extract_verses_from_html_darby h = Inr rs' \<longrightarrow> (\<forall>r \<in> set rs'. text_d r \<noteq> []))"
proof (intro conjI impI ballI)
  show "extract_verses_from_html_bible h =
     (if \<forall>(a, d, t) \<in> set (findall BIBLE_MARKER (strip_popups h)).
           length a \<le> int_max_str_digits
      then Inr (map (\<lambda>(a, d, t). \<lparr>verse_num = digits_value a, text_b = clean_bible t\<rparr>)
                  (filter (\<lambda>(a, d, t). clean_bible t \<noteq> [])
                     (findall BIBLE_MARKER (strip_popups h))))
      else Inl ValueError)"
    by (simp add: extract_verses_from_html_bible_def bible_loop_eq)
next
  show "extract_verses_from_html_darby h =
     (if \<forall>(a, d, t) \<in> set (findall DARBY_MARKER h).
           clean_darby t \<noteq> [] \<longrightarrow> length d \<le> int_max_str_digits
      then Inr (map (\<lambda>(a, d, t). \<lparr>verse_number = digits_value d, text_d = clean_darby t\<rparr>)
                  (filter (\<lambda>(a, d, t). clean_darby t \<noteq> []) (findall DARBY_MARKER h)))
      else Inl ValueError)"
    by (simp add: extract_verses_from_html_darby_def darby_loop_eq)
next
  fix r assume "extract_verses_from_html_bible h = Inr rs" and "r \<in> set rs"
  then show "text_b r \<noteq> []"
    by (auto simp: extract_verses_from_html_bible_def bible_loop_eq split: if_splits)
next
  fix r assume "extract_verses_from_html_darby h = Inr rs'" and "r \<in> set rs'"
  then show "text_d r \<noteq> []"
    by (auto simp: extract_verses_from_html_darby_def darby_loop_eq split: if_splits)
qed

text \<open>
  On a fragment whose first verse has a body of markup and whitespace only, the first
  marker is matched and gives no record.
\<close>

theorem C4_record_iff_nonempty_witness:
  "findall BIBLE_MARKER (strip_popups empty_body_fragment) =
     [(py ''1'', py ''1'', py ''<i> </i> ''), (py ''2'', py ''2'', py ''x'')] \<and>
   extract_verses_from_html_bible empty_body_fragment =
     Inr [\<lparr>verse_num = 2, text_b = py ''x''\<rparr>] \<and>
   extract_verses_from_html_darby empty_body_fragment =
     Inr [\<lparr>verse_number = 2, text_d = py ''x''\<rparr>] \<and>
   text_b \<lparr>verse_num = 2, text_b = py ''x''\<rparr> \<noteq> [] \<and>
   text_d \<lparr>verse_number = 2, text_d = py ''x''\<rparr> \<noteq> []"
proof -
  have x: "py ''x'' \<noteq> []" "digits_value (py ''2'') = 2" "length (py ''1'') \<le> int_max_str_digits"
    "length (py ''2'') \<le> int_max_str_digits"
    by (simp_all add: eval_defs)
  from C4_record_iff_nonempty [of empty_body_fragment] show ?thesis
    by (simp add: empty_body_findall_bible empty_body_findall_darby empty_body_clean x)
qed

section \<open>The order of the records\<close>

text \<open>A match ends after its start, at a suffix of the text.\<close>

lemma lazy_body_suffix: "lazy_body s = Some (t, r) \<Longrightarrow> suffix r s"
proof (induction s arbitrary: t)
  case Nil
  then show ?case by simp
next
  case (Cons c cs)
  show ?case
  proof (cases "prefix VERSE_OPEN (c # cs) \<or> prefix DIV_CLOSE (c # cs)")
    case True
    with Cons.prems have "r = c # cs" by simp
    then show ?thesis by simp
  next
    case False
    with Cons.prems obtain t' where "lazy_body cs = Some (t', r)"
      by (auto split: option.splits)
    from Cons.IH [OF this] show ?thesis
      by (rule suffix_ConsI)
  qed
qed

lemma strip_prefix_suffix: "strip_prefix p u = Some v \<Longrightarrow> suffix v u"
  by (auto simp: strip_prefix_def suffix_drop split: if_splits)

lemma match_verse_suffix:
  assumes "match_verse pre s = Some (g, rest)"
  shows "suffix rest s \<and> length rest < length s"
proof -
  from assms obtain s1 s3 s5 t where
    s1: "strip_prefix pre s = Some s1" and d1: "takeWhile is_digit s1 \<noteq> []" and
    s3: "strip_prefix (py ''\">'') (dropWhile is_digit s1) = Some s3" and
    s5: "strip_prefix (py ''&#160;</span>'') (dropWhile is_digit s3) = Some s5" and
    b: "lazy_body s5 = Some (t, rest)"
    by (auto simp: match_verse_def split: option.splits if_splits)
  have "suffix rest s5"
    by (rule lazy_body_suffix [OF b])
  also have "suffix s5 (dropWhile is_digit s3)"
    by (rule strip_prefix_suffix [OF s5])
  also have "suffix (dropWhile is_digit s3) s3"
    by (rule suffix_dropWhile)
  also have "suffix s3 (dropWhile is_digit s1)"
    by (rule strip_prefix_suffix [OF s3])
  finally have a: "suffix rest (dropWhile is_digit s1)" .
  have "suffix (dropWhile is_digit s1) s1"
    by (rule suffix_dropWhile)
  also have "suffix s1 s"
    by (rule strip_prefix_suffix [OF s1])
  finally have c: "suffix (dropWhile is_digit s1) s" .
  from d1 have "length (dropWhile is_digit s1) < length s1"
    by (metis length_append less_add_same_cancel2 length_greater_0_conv takeWhile_dropWhile_id)
  with suffix_length_le [OF a] suffix_length_le [OF strip_prefix_suffix [OF s1]]
  have "length rest < length s" by simp
  moreover from a c have "suffix rest s"
    by (rule suffix_order.trans)
  ultimately show ?thesis by simp
qed

lemma match_verse_drop:
  assumes "match_verse pre s = Some (g, rest)"
  shows "\<exists>n. 0 < n \<and> rest = drop n s"
proof -
  from match_verse_suffix [OF assms] have sf: "suffix rest s" and l: "length rest < length s"
    by simp_all
  from sf obtain zs where zs: "s = zs @ rest"
    by (rule suffixE)
  have "rest = drop (length zs) s"
    unfolding zs by simp
  moreover have "0 < length zs"
    using l unfolding zs by simp
  ultimately show ?thesis by blast
qed

text \<open>
  The matches \<open>findall\<close> returns start at positions that increase strictly.
\<close>

lemma findall_positions:
  "\<exists>ps. sorted_wrt (<) ps \<and>
        list_all2 (\<lambda>p g. \<exists>rest. match_verse pre (drop p s) = Some (g, rest)) ps (findall pre s)"
proof (induction pre s rule: findall.induct)
  case (1 pre)
  show ?case by simp
next
  case (2 pre c cs)
  show ?case
  proof (cases "match_verse pre (c # cs)")
    case None
    with 2(1) obtain ps where ps: "sorted_wrt (<) ps"
      "list_all2 (\<lambda>p g. \<exists>rest. match_verse pre (drop p cs) = Some (g, rest)) ps (findall pre cs)"
      by auto
    have "sorted_wrt (<) (map Suc ps)"
      using ps(1) by (simp add: sorted_wrt_map)
    moreover have "list_all2 (\<lambda>p g. \<exists>rest. match_verse pre (drop p (c # cs)) = Some (g, rest))
        (map Suc ps) (findall pre (c # cs))"
      using ps(2) None by (simp add: list_all2_map1)
    ultimately show ?thesis by blast
  next
    case (Some x)
    obtain g rest where x: "x = (g, rest)" by (cases x)
    from Some x match_verse_drop obtain n where n: "0 < n" "rest = drop n (c # cs)"
      by blast
    from 2(2) [OF Some x [symmetric]] obtain ps where ps: "sorted_wrt (<) ps"
      "list_all2 (\<lambda>p g. \<exists>r. match_verse pre (drop p rest) = Some (g, r)) ps (findall pre rest)"
      by auto
    have "sorted_wrt (<) (0 # map (\<lambda>p. p + n) ps)"
      using ps(1) n(1) by (simp add: sorted_wrt_map)
    moreover have "list_all2 (\<lambda>p g. \<exists>r. match_verse pre (drop p (c # cs)) = Some (g, r))
        (0 # map (\<lambda>p. p + n) ps) (findall pre (c # cs))"
      using ps(2) Some x n(2) by (simp add: list_all2_map1 del: drop_Suc_Cons)
    ultimately show ?thesis by blast
  qed
qed

lemma filter_positions:
  assumes "list_all2 Q ps ms" and "sorted_wrt (<) (ps :: nat list)"
  shows "\<exists>qs. sorted_wrt (<) qs \<and> set qs \<subseteq> set ps \<and> list_all2 Q qs (filter P ms)"
  using assms
proof (induction rule: list_all2_induct)
  case Nil
  show ?case by simp
next
  case (Cons p ps m ms)
  then obtain qs where qs: "sorted_wrt (<) qs" "set qs \<subseteq> set ps" "list_all2 Q qs (filter P ms)"
    by auto
  show ?case
  proof (cases "P m")
    case True
    have "sorted_wrt (<) (p # qs)"
      using qs(1,2) Cons.prems by auto
    with qs Cons.hyps(1) True show ?thesis
      by (intro exI [of _ "p # qs"]) auto
  next
    case False
    with qs show ?thesis
      by (intro exI [of _ qs]) auto
  qed
qed

lemma bible_reversed:
  "extract_verses_from_html_bible reversed_fragment =
     Inr [\<lparr>verse_num = 2, text_b = py ''b''\<rparr>, \<lparr>verse_num = 1, text_b = py ''a''\<rparr>]"
  by (simp add: reversed_fragment_def eval_defs)

lemma darby_reversed:
  "extract_verses_from_html_darby reversed_fragment =
     Inr [\<lparr>verse_number = 2, text_d = py ''b''\<rparr>, \<lparr>verse_number = 1, text_d = py ''a''\<rparr>]"
  by (simp add: reversed_fragment_def eval_defs)

text \<open>Popup removal only deletes: what is left keeps its order.\<close>

lemma find_after_suffix: "find_after pat s = Some r \<Longrightarrow> suffix r s"
proof (induction s)
  case Nil
  then show ?case by (simp split: if_splits)
next
  case (Cons c cs)
  show ?case
  proof (cases "prefix pat (c # cs)")
    case True
    with Cons.prems have "r = drop (length pat) (c # cs)" by simp
    then show ?thesis by (simp only: suffix_drop)
  next
    case False
    with Cons.prems have "find_after pat cs = Some r" by simp
    then have "suffix r cs" by (rule Cons.IH)
    then show ?thesis by (rule suffix_ConsI)
  qed
qed

lemma subseq_strip_popups: "subseq (strip_popups s) s"
proof (induction s rule: strip_popups.induct)
  case 1
  show ?case by simp
next
  case (2 c cs)
  show ?case
  proof (cases "prefix POPUP_OPEN (c # cs)")
    case False
    with 2(3) show ?thesis by simp
  next
    case True
    show ?thesis
    proof (cases "find_after SPAN_CLOSE (drop (length POPUP_OPEN) (c # cs))")
      case None
      with True 2(1) [OF True None] show ?thesis by simp
    next
      case (Some rest)
      from find_after_suffix [OF Some] have "suffix rest (c # cs)"
        using suffix_drop suffix_order.trans by blast
      then have "subseq rest (c # cs)"
        by (metis suffix_imp_sublist sublist_imp_subseq)
      with 2(2) [OF True Some] have "subseq (strip_popups rest) (c # cs)"
        using subseq_order.trans by blast
      with True Some show ?thesis by simp
    qed
  qed
qed

text \<open>
  C5: the records an extractor returns stand in the order of their markers in the text it
  matches: there are positions, strictly increasing, one for each record, such that the
  pattern matches at the position and the record is made from the groups of that match.
  The text matched is the fragment, in extract_bible_data after the removal of popups,
  which deletes from the fragment and keeps the order of what it leaves. The verse numbers
  play no part.
\<close>

theorem C5_document_order:
  "subseq (strip_popups h) h \<and>
   (extract_verses_from_html_bible h = Inr rs \<longrightarrow>
    (\<exists>ps. sorted_wrt (<) ps \<and>
       list_all2 (\<lambda>p r. \<exists>a d t rest.
           match_verse BIBLE_MARKER (drop p (strip_popups h)) = Some ((a, d, t), rest) \<and>
           r = \<lparr>verse_num = digits_value a, text_b = clean_bible t\<rparr>)
         ps rs)) \<and>
   (extract_verses_from_html_darby h = Inr rs' \<longrightarrow>
    (\<exists>ps. sorted_wrt (<) ps \<and>
       list_all2 (\<lambda>p r. \<exists>a d t rest.
           match_verse DARBY_MARKER (drop p h) = Some ((a, d, t), rest) \<and>
           r = \<lparr>verse_number = digits_value d, text_d = clean_darby t\<rparr>)
         ps rs'))"
proof (intro conjI impI)
  show "subseq (strip_popups h) h"
    by (rule subseq_strip_popups)
next
  assume "extract_verses_from_html_bible h = Inr rs"
  then have rs: "rs = map (\<lambda>(a, d, t). \<lparr>verse_num = digits_value a, text_b = clean_bible t\<rparr>)
      (filter (\<lambda>(a, d, t). clean_bible t \<noteq> []) (findall BIBLE_MARKER (strip_popups h)))"
    by (simp add: extract_verses_from_html_bible_def bible_loop_eq split: if_splits)
  obtain ps where ps: "sorted_wrt (<) ps"
    "list_all2 (\<lambda>p g. \<exists>rest. match_verse BIBLE_MARKER (drop p (strip_popups h)) = Some (g, rest))
       ps (findall BIBLE_MARKER (strip_popups h))"
    using findall_positions by blast
  from filter_positions [OF ps(2) ps(1)] obtain qs where qs: "sorted_wrt (<) qs"
    "list_all2 (\<lambda>p g. \<exists>rest. match_verse BIBLE_MARKER (drop p (strip_popups h)) = Some (g, rest))
       qs (filter (\<lambda>(a, d, t). clean_bible t \<noteq> []) (findall BIBLE_MARKER (strip_popups h)))"
    by blast
  have "list_all2 (\<lambda>p r. \<exists>a d t rest.
          match_verse BIBLE_MARKER (drop p (strip_popups h)) = Some ((a, d, t), rest) \<and>
          r = \<lparr>verse_num = digits_value a, text_b = clean_bible t\<rparr>)
        qs rs"
    unfolding rs using qs(2) by (auto simp: list_all2_map2 elim!: list_all2_mono)
  with qs(1) show "\<exists>ps. sorted_wrt (<) ps \<and>
      list_all2 (\<lambda>p r. \<exists>a d t rest.
          match_verse BIBLE_MARKER (drop p (strip_popups h)) = Some ((a, d, t), rest) \<and>
          r = \<lparr>verse_num = digits_value a, text_b = clean_bible t\<rparr>)
        ps rs"
    by blast
next
  assume "extract_verses_from_html_darby h = Inr rs'"
  then have rs: "rs' = map (\<lambda>(a, d, t). \<lparr>verse_number = digits_value d, text_d = clean_darby t\<rparr>)
      (filter (\<lambda>(a, d, t). clean_darby t \<noteq> []) (findall DARBY_MARKER h))"
    by (simp add: extract_verses_from_html_darby_def darby_loop_eq split: if_splits)
  obtain ps where ps: "sorted_wrt (<) ps"
    "list_all2 (\<lambda>p g. \<exists>rest. match_verse DARBY_MARKER (drop p h) = Some (g, rest))
       ps (findall DARBY_MARKER h)"
    using findall_positions by blast
  from filter_positions [OF ps(2) ps(1)] obtain qs where qs: "sorted_wrt (<) qs"
    "list_all2 (\<lambda>p g. \<exists>rest. match_verse DARBY_MARKER (drop p h) = Some (g, rest))
       qs (filter (\<lambda>(a, d, t). clean_darby t \<noteq> []) (findall DARBY_MARKER h))"
    by blast
  have "list_all2 (\<lambda>p r. \<exists>a d t rest.
          match_verse DARBY_MARKER (drop p h) = Some ((a, d, t), rest) \<and>
          r = \<lparr>verse_number = digits_value d, text_d = clean_darby t\<rparr>)
        qs rs'"
    unfolding rs using qs(2) by (auto simp: list_all2_map2 elim!: list_all2_mono)
  with qs(1) show "\<exists>ps. sorted_wrt (<) ps \<and>
      list_all2 (\<lambda>p r. \<exists>a d t rest.
          match_verse DARBY_MARKER (drop p h) = Some ((a, d, t), rest) \<and>
          r = \<lparr>verse_number = digits_value d, text_d = clean_darby t\<rparr>)
        ps rs'"
    by blast
qed

text \<open>Markers in the order 2, 1 give records in the order 2, 1.\<close>

theorem C5_document_order_witness:
  "extract_verses_from_html_bible reversed_fragment =
     Inr [\<lparr>verse_num = 2, text_b = py ''b''\<rparr>, \<lparr>verse_num = 1, text_b = py ''a''\<rparr>] \<and>
   extract_verses_from_html_darby reversed_fragment =
     Inr [\<lparr>verse_number = 2, text_d = py ''b''\<rparr>, \<lparr>verse_number = 1, text_d = py ''a''\<rparr>] \<and>
   (\<exists>ps. sorted_wrt (<) ps \<and>
      list_all2 (\<lambda>p r. \<exists>a d t rest.
          match_verse BIBLE_MARKER (drop p (strip_popups reversed_fragment)) =
            Some ((a, d, t), rest) \<and>
          r = \<lparr>verse_num = digits_value a, text_b = clean_bible t\<rparr>)
        ps [\<lparr>verse_num = 2, text_b = py ''b''\<rparr>, \<lparr>verse_num = 1, text_b = py ''a''\<rparr>])"
proof -
  from C5_document_order [of reversed_fragment
      "[\<lparr>verse_num = 2, text_b = py ''b''\<rparr>, \<lparr>verse_num = 1, text_b = py ''a''\<rparr>]"]
    bible_reversed
  have "\<exists>ps. sorted_wrt (<) ps \<and>
      list_all2 (\<lambda>p r. \<exists>a d t rest.
          match_verse BIBLE_MARKER (drop p (strip_popups reversed_fragment)) =
            Some ((a, d, t), rest) \<and>
          r = \<lparr>verse_num = digits_value a, text_b = clean_bible t\<rparr>)
        ps [\<lparr>verse_num = 2, text_b = py ''b''\<rparr>, \<lparr>verse_num = 1, text_b = py ''a''\<rparr>]"
    by blast
  with bible_reversed darby_reversed show ?thesis
    by (simp only: simp_thms)
qed

section \<open>Normalising twice\<close>

lemma strip_collapse_fixed:
  "py_strip (collapse_ws (py_strip (collapse_ws t))) = py_strip (collapse_ws t)"
  by (simp add: collapse_ws_normal ws_normal_strip ws_normal_collapse py_strip_idem)

lemma glyph_entity_clean:
  "strip_tags entity_inside_glyph = entity_inside_glyph \<and>
   decode_entities entity_inside_glyph = entity_inside_glyph \<and>
   clean_bible entity_inside_glyph = py ''&lt;'' \<and>
   clean_bible (py ''&lt;'') = py ''<''"
  by (simp add: entity_inside_glyph_def eval_defs)

lemma bracket_entity_clean:
  "strip_tags entity_inside_bracket = entity_inside_bracket \<and>
   decode_entities entity_inside_bracket = entity_inside_bracket \<and>
   clean_darby entity_inside_bracket = py ''&lt;'' \<and>
   clean_darby (py ''&lt;'') = py ''<''"
  by (simp add: entity_inside_bracket_def eval_defs)

text \<open>
  C6, as claimed, fails: \<open>&l\<close>, a dagger, \<open>t;\<close> holds no tag and no entity (tag
  removal and entity decoding leave it as it is), yet the removal of the dagger makes it
  \<open>&lt;\<close>, which a second normalisation decodes to \<open><\<close>; so does \<open>&l[t;\<close> in
  extract_darby, where the bracket is removed.
\<close>

theorem C6_counterexample:
  "strip_tags entity_inside_glyph = entity_inside_glyph \<and>
   decode_entities entity_inside_glyph = entity_inside_glyph \<and>
   clean_bible (clean_bible entity_inside_glyph) \<noteq> clean_bible entity_inside_glyph \<and>
   strip_tags entity_inside_bracket = entity_inside_bracket \<and>
   decode_entities entity_inside_bracket = entity_inside_bracket \<and>
   clean_darby (clean_darby entity_inside_bracket) \<noteq> clean_darby entity_inside_bracket"
  by (simp add: glyph_entity_clean bracket_entity_clean) (simp add: py_def)

text \<open>
  C6, amended: the normalisation is idempotent on every text whose normalised form is
  free of markup and entities, that is, is left as it is by tag removal and by entity
  decoding: for every such text, normalising twice gives what normalising once gives, in
  both scripts.
\<close>

theorem C6_idempotent:
  "(strip_tags (clean_bible s) = clean_bible s \<and>
    decode_entities (clean_bible s) = clean_bible s \<longrightarrow>
    clean_bible (clean_bible s) = clean_bible s) \<and>
   (strip_tags (clean_darby s) = clean_darby s \<and>
    decode_entities (clean_darby s) = clean_darby s \<longrightarrow>
    clean_darby (clean_darby s) = clean_darby s)"
proof (intro conjI impI)
  let ?g = "remove_footnote_markers (decode_entities (strip_tags s))"
  let ?n = "py_strip (collapse_ws ?g)"
  assume h: "strip_tags (clean_bible s) = clean_bible s \<and>
    decode_entities (clean_bible s) = clean_bible s"
  have n: "clean_bible s = ?n"
    by (simp add: clean_bible_def)
  have sub: "set ?n \<subseteq> insert SP (set ?g)"
    by (rule set_strip_collapse)
  have g: "\<forall>x \<in> set ?g. x \<notin> set [8224, 8225, 167, 182]"
    by (auto simp: remove_footnote_markers_def)
  have "remove_footnote_markers ?n = ?n"
    unfolding remove_footnote_markers_def [of ?n]
    using sub g by (intro filter_True) (auto simp: SP_def)
  moreover from h have "clean_bible ?n = py_strip (collapse_ws (remove_footnote_markers ?n))"
    unfolding n by (simp add: clean_bible_def [of ?n])
  ultimately show "clean_bible (clean_bible s) = clean_bible s"
    by (simp only: n strip_collapse_fixed)
next
  let ?g = "remove_square_brackets (decode_entities (strip_tags s))"
  let ?n = "py_strip (collapse_ws ?g)"
  assume h: "strip_tags (clean_darby s) = clean_darby s \<and>
    decode_entities (clean_darby s) = clean_darby s"
  have n: "clean_darby s = ?n"
    by (simp add: clean_darby_def)
  have sub: "set ?n \<subseteq> insert SP (set ?g)"
    by (rule set_strip_collapse)
  have g: "\<forall>x \<in> set ?g. x \<noteq> 91 \<and> x \<noteq> 93"
    by (auto simp: remove_square_brackets_filter)
  have "remove_square_brackets ?n = ?n"
    unfolding remove_square_brackets_filter [of ?n]
    using sub g by (intro filter_True) (auto simp: SP_def)
  moreover from h have "clean_darby ?n = py_strip (collapse_ws (remove_square_brackets ?n))"
    unfolding n by (simp add: clean_darby_def [of ?n])
  ultimately show "clean_darby (clean_darby s) = clean_darby s"
    by (simp only: n strip_collapse_fixed)
qed

lemma ampersand_text_clean:
  "clean_bible (py ''Tom  & Jerry, 1 < 2 '') = py ''Tom & Jerry, 1 < 2'' \<and>
   clean_darby (py ''Tom  & Jerry, 1 < 2 '') = py ''Tom & Jerry, 1 < 2'' \<and>
   strip_tags (py ''Tom & Jerry, 1 < 2'') = py ''Tom & Jerry, 1 < 2'' \<and>
   decode_entities (py ''Tom & Jerry, 1 < 2'') = py ''Tom & Jerry, 1 < 2''"
  by (simp add: eval_defs)

text \<open>A text with an ampersand and a less-than sign that are no entity and no tag.\<close>

theorem C6_idempotent_witness:
  "clean_bible (py ''Tom  & Jerry, 1 < 2 '') = py ''Tom & Jerry, 1 < 2'' \<and>
   strip_tags (py ''Tom & Jerry, 1 < 2'') = py ''Tom & Jerry, 1 < 2'' \<and>
   decode_entities (py ''Tom & Jerry, 1 < 2'') = py ''Tom & Jerry, 1 < 2'' \<and>
   clean_bible (clean_bible (py ''Tom  & Jerry, 1 < 2 '')) =
     clean_bible (py ''Tom  & Jerry, 1 < 2 '') \<and>
   clean_darby (clean_darby (py ''Tom  & Jerry, 1 < 2 '')) =
     clean_darby (py ''Tom  & Jerry, 1 < 2 '')"
  using C6_idempotent [of "py ''Tom  & Jerry, 1 < 2 ''"] ampersand_text_clean
  by simp

section \<open>File names with an unknown book code\<close>

lemma book_names_xyz: "BOOK_NAMES (py ''XYZ'') = None"
  by (simp add: BOOK_NAMES_def py_def)

lemma pf_bible_xyz: "parse_filename_bible (py ''XYZ01.htm'') = Inr (Some (py ''XYZ'', 1))"
  by (simp add: parse_filename_bible_def eval_defs is_AZ09_def Let_def)

lemma pf_darby_xyz: "parse_filename_darby (py ''XYZ01.htm'') = Inr (Some (py ''XYZ'', 1))"
  by (simp add: parse_filename_darby_def eval_defs is_AZ09_def)

lemma chapter_file_xyz:
  "is_chapter_file_bible (py ''XYZ01.htm'') \<and> is_chapter_file_darby (py ''XYZ01.htm'')"
  by (simp add: is_chapter_file_bible_def is_chapter_file_darby_def eval_defs is_AZ09_def)

text \<open>
  In both drivers the loop passes over a file whose parsed book code is not in
  \<open>BOOK_NAMES\<close> without reading it: \<open>all_verses\<close> is unchanged and nothing is
  raised, whatever the file system holds.
\<close>

lemma unknown_code_loop_skip:
  "(unknown_book_bible f \<longrightarrow>
      bible_files_loop fs (f # files) acc = bible_files_loop fs files acc) \<and>
   (unknown_book_darby f \<longrightarrow>
      darby_files_loop fs (f # files) acc = darby_files_loop fs files acc)"
  by (auto simp: unknown_book_bible_def unknown_book_darby_def split: option.splits sum.splits)

text \<open>
  C7 on the code: \<open>XYZ01.htm\<close> has a book code that is not in \<open>BOOK_NAMES\<close>, and the
  loop of either script passes over it with no record and no exception, also when it
  cannot be read. But \<open>main\<close> reads the first chapter file for its printed test before
  the loop, whatever its code: in a directory that holds only \<open>XYZ01.htm\<close>,
  unreadable, both runs end with the exception of that read.
\<close>

theorem C7_unknown_code_first_file:
  "unknown_book_bible (py ''XYZ01.htm'') \<and> unknown_book_darby (py ''XYZ01.htm'') \<and>
   bible_files_loop no_file_fs [py ''XYZ01.htm''] [] = Inr [] \<and>
   darby_files_loop no_file_fs [py ''XYZ01.htm''] [] = Inr [] \<and>
   main_bible no_file_fs [py ''XYZ01.htm''] = Inl OSError \<and>
   main_darby no_file_fs [py ''XYZ01.htm''] = Inl OSError"
proof -
  have u: "unknown_book_bible (py ''XYZ01.htm'')" "unknown_book_darby (py ''XYZ01.htm'')"
    by (simp_all add: unknown_book_bible_def unknown_book_darby_def pf_bible_xyz pf_darby_xyz
        book_names_xyz)
  from u unknown_code_loop_skip [of "py ''XYZ01.htm''" no_file_fs "[]" "[]"]
  have l: "bible_files_loop no_file_fs [py ''XYZ01.htm''] [] = Inr []"
    "darby_files_loop no_file_fs [py ''XYZ01.htm''] [] = Inr []"
    by simp_all
  from u l chapter_file_xyz show ?thesis
    by (simp add: main_bible_def main_darby_def extract_verses_from_file_def no_file_fs_def)
qed

section \<open>A chapter file that cannot be read\<close>

lemma book_names_gen: "BOOK_NAMES (py ''GEN'') = Some (py ''Genesis'')"
  by (simp add: BOOK_NAMES_def py_def)

lemma pf_bible_gen:
  "parse_filename_bible (py ''GEN01.htm'') = Inr (Some (py ''GEN'', 1)) \<and>
   parse_filename_bible (py ''GEN02.htm'') = Inr (Some (py ''GEN'', 2))"
  by (simp add: parse_filename_bible_def eval_defs is_AZ09_def Let_def)

lemma pf_darby_gen:
  "parse_filename_darby (py ''GEN01.htm'') = Inr (Some (py ''GEN'', 1)) \<and>
   parse_filename_darby (py ''GEN02.htm'') = Inr (Some (py ''GEN'', 2))"
  by (simp add: parse_filename_darby_def eval_defs is_AZ09_def)

lemma chapter_files_gen:
  "is_chapter_file_bible (py ''GEN01.htm'') \<and> is_chapter_file_bible (py ''GEN02.htm'') \<and>
   is_chapter_file_darby (py ''GEN01.htm'') \<and> is_chapter_file_darby (py ''GEN02.htm'')"
  by (simp add: is_chapter_file_bible_def is_chapter_file_darby_def eval_defs is_AZ09_def)

lemma sort_gen:
  "sort [py ''GEN01.htm'', py ''GEN02.htm''] = [py ''GEN01.htm'', py ''GEN02.htm'']"
  by (simp add: py_def)

lemma unreadable_fs_gen:
  "unreadable_fs (py ''GEN01.htm'') =
     Inr (py ''<span class=\"verse\" id=\"V1\">1&#160;</span>In the beginning</div>'') \<and>
   unreadable_fs (py ''GEN02.htm'') = Inl OSError"
  by (simp add: unreadable_fs_def py_def)

lemma bible_one_verse:
  "extract_verses_from_html_bible
     (py ''<span class=\"verse\" id=\"V1\">1&#160;</span>In the beginning</div>'') =
   Inr [\<lparr>verse_num = 1, text_b = py ''In the beginning''\<rparr>]"
  by (simp add: eval_defs)

lemma darby_one_verse:
  "extract_verses_from_html_darby
     (py ''<span class=\"verse\" id=\"V1\">1&#160;</span>In the beginning</div>'') =
   Inr [\<lparr>verse_number = 1, text_d = py ''In the beginning''\<rparr>]"
  by (simp add: eval_defs)

lemma genesis_darby:
  "get_testament (py ''Genesis'') = py ''Old'' \<and> py ''Genesis'' \<in> set BOOK_ORDER \<and>
   index_of BOOK_ORDER (py ''Genesis'') = 0"
  by (simp add: get_testament_def BOOK_ORDER_def py_def)

text \<open>
  C8 on the code: with \<open>GEN01.htm\<close> readable and \<open>GEN02.htm\<close> not, the run of
  extract_bible_data ends with the exception of the read, and no list is written; so
  does the run of extract_darby when the unreadable file is the first chapter file, which
  it reads outside its \<open>try\<close>. Inside its loop extract_darby does skip the file and
  keeps the verse of \<open>GEN01.htm\<close>.
\<close>

theorem C8_read_failure:
  "main_bible unreadable_fs [py ''GEN01.htm'', py ''GEN02.htm''] = Inl OSError \<and>
   main_darby unreadable_fs [py ''GEN02.htm''] = Inl OSError \<and>
   main_darby unreadable_fs [py ''GEN01.htm'', py ''GEN02.htm''] =
     Inr [make_verse_obj (py ''Genesis'') 1 1 (py ''In the beginning'') (py ''Darby'')
            (py ''Old'') 0]"
proof -
  have s1: "sort [py ''GEN02.htm''] = [py ''GEN02.htm'']"
    by simp
  show ?thesis
    by (simp add: main_bible_def main_darby_def chapter_files_gen sort_gen s1
        extract_verses_from_file_def unreadable_fs_gen pf_bible_gen pf_darby_gen
        book_names_gen bible_one_verse darby_one_verse genesis_darby Let_def
        del: sort_key_simps)
qed

section \<open>Chapter and verse numbers\<close>

lemma pf_bible_zero: "parse_filename_bible zero_chapter_name = Inr (Some (py ''GEN'', 0))"
  by (simp add: parse_filename_bible_def zero_chapter_name_def eval_defs is_AZ09_def Let_def)

lemma pf_darby_zero: "parse_filename_darby zero_chapter_name = Inr (Some (py ''GEN'', 0))"
  by (simp add: parse_filename_darby_def zero_chapter_name_def eval_defs is_AZ09_def)

lemma bible_zero_marker:
  "extract_verses_from_html_bible zero_marker = Inr [\<lparr>verse_num = 0, text_b = py ''x''\<rparr>]"
  by (simp add: zero_marker_def eval_defs)

lemma darby_zero_marker:
  "extract_verses_from_html_darby zero_marker =
     Inr [\<lparr>verse_number = 0, text_d = py ''x''\<rparr>]"
  by (simp add: zero_marker_def eval_defs)

text \<open>
  C9, as claimed, fails: both \<open>parse_filename\<close> give chapter 0 for \<open>GEN00.htm\<close>, and
  both extractors give verse number 0 for a marker whose digits are \<open>0\<close>.
\<close>

theorem C9_counterexample:
  "parse_filename_bible zero_chapter_name = Inr (Some (py ''GEN'', 0)) \<and>
   parse_filename_darby zero_chapter_name = Inr (Some (py ''GEN'', 0)) \<and>
   extract_verses_from_html_bible zero_marker = Inr [\<lparr>verse_num = 0, text_b = py ''x''\<rparr>] \<and>
   extract_verses_from_html_darby zero_marker =
     Inr [\<lparr>verse_number = 0, text_d = py ''x''\<rparr>]"
  by (simp only: pf_bible_zero pf_darby_zero bible_zero_marker darby_zero_marker simp_thms)

text \<open>
  C9, amended: the chapter of every file name \<open>parse_filename\<close> accepts and the verse
  number of every record the extractors return are integers greater than or equal to 0.
\<close>

theorem C9_nonnegative:
  "(parse_filename_bible f = Inr (Some (code, ch)) \<longrightarrow> 0 \<le> ch) \<and>
   (parse_filename_darby f = Inr (Some (code, ch)) \<longrightarrow> 0 \<le> ch) \<and>
   (extract_verses_from_html_bible h = Inr rs \<longrightarrow> (\<forall>r \<in> set rs. 0 \<le> verse_num r)) \<and>
   (extract_verses_from_html_darby h = Inr rs' \<longrightarrow> (\<forall>r \<in> set rs'. 0 \<le> verse_number r))"
proof (intro conjI impI ballI)
  assume "parse_filename_bible f = Inr (Some (code, ch))"
  then show "0 \<le> ch"
    by (auto simp: parse_filename_bible_def Let_def dest: py_int_nonneg
        split: option.splits sum.splits)
next
  assume "parse_filename_darby f = Inr (Some (code, ch))"
  then show "0 \<le> ch"
    by (auto simp: parse_filename_darby_def dest: py_int_nonneg split: if_splits sum.splits)
next
  fix r assume "extract_verses_from_html_bible h = Inr rs" and "r \<in> set rs"
  then show "0 \<le> verse_num r"
    by (auto simp: extract_verses_from_html_bible_def bible_loop_eq digits_value_nonneg
        split: if_splits)
next
  fix r assume "extract_verses_from_html_darby h = Inr rs'" and "r \<in> set rs'"
  then show "0 \<le> verse_number r"
    by (auto simp: extract_verses_from_html_darby_def darby_loop_eq digits_value_nonneg
        split: if_splits)
qed

text \<open>The file name \<open>GEN00.htm\<close> and a marker numbered 0 reach the bound.\<close>

theorem C9_nonnegative_witness:
  "parse_filename_bible zero_chapter_name = Inr (Some (py ''GEN'', 0)) \<and>
   parse_filename_darby zero_chapter_name = Inr (Some (py ''GEN'', 0)) \<and> (0::int) \<le> 0 \<and>
   extract_verses_from_html_bible zero_marker = Inr [\<lparr>verse_num = 0, text_b = py ''x''\<rparr>] \<and>
   0 \<le> verse_num \<lparr>verse_num = 0, text_b = py ''x''\<rparr> \<and>
   extract_verses_from_html_darby zero_marker =
     Inr [\<lparr>verse_number = 0, text_d = py ''x''\<rparr>] \<and>
   0 \<le> verse_number \<lparr>verse_number = 0, text_d = py ''x''\<rparr>"
  using C9_nonnegative [of zero_chapter_name "py ''GEN''" 0 zero_marker
      "[\<lparr>verse_num = 0, text_b = py ''x''\<rparr>]" "[\<lparr>verse_number = 0, text_d = py ''x''\<rparr>]"]
  by (simp add: pf_bible_zero pf_darby_zero bible_zero_marker darby_zero_marker)

section \<open>Which digits become the verse number\<close>

lemma bible_mismatch:
  "extract_verses_from_html_bible mismatch_marker = Inr [\<lparr>verse_num = 1, text_b = py ''x''\<rparr>]"
  by (simp add: mismatch_marker_def eval_defs)

lemma darby_mismatch:
  "extract_verses_from_html_darby mismatch_marker =
     Inr [\<lparr>verse_number = 2, text_d = py ''x''\<rparr>]"
  by (simp add: mismatch_marker_def eval_defs)

text \<open>
  C10, as claimed, fails: for the marker \<open>id="V1">2\<close> extract_bible_data returns the
  verse number 1 and extract_darby the verse number 2.
\<close>

theorem C10_counterexample:
  "extract_verses_from_html_bible mismatch_marker = Inr [\<lparr>verse_num = 1, text_b = py ''x''\<rparr>] \<and>
   extract_verses_from_html_darby mismatch_marker =
     Inr [\<lparr>verse_number = 2, text_d = py ''x''\<rparr>] \<and>
   map verse_num [\<lparr>verse_num = 1, text_b = py ''x''\<rparr>] \<noteq>
   map verse_number [\<lparr>verse_number = 2, text_d = py ''x''\<rparr>]"
  by (simp add: bible_mismatch darby_mismatch)

text \<open>
  C10, amended: when both extractors return and keep the verses of the same markers, they
  return the same verse numbers provided that, in each of these markers, the digits of the
  \<open>id\<close> attribute (which extract_bible_data reads) and the digits displayed (which
  extract_darby reads) denote the same integer. The bodies of the verses need not agree.
\<close>

theorem C10_same_integer:
  assumes "kept_markers_bible h = kept_markers_darby h"
    and "\<forall>(a, d) \<in> set (kept_markers_darby h). digits_value a = digits_value d"
    and "extract_verses_from_html_bible h = Inr rb"
    and "extract_verses_from_html_darby h = Inr rd"
  shows "map verse_num rb = map verse_number rd"
proof -
  from assms(3) have "map verse_num rb = map (\<lambda>(a, d). digits_value a) (kept_markers_bible h)"
    by (auto simp: extract_verses_from_html_bible_def bible_loop_eq kept_markers_bible_def
        split: if_splits)
  also have "\<dots> = map (\<lambda>(a, d). digits_value a) (kept_markers_darby h)"
    by (simp only: assms(1))
  also have "\<dots> = map (\<lambda>(a, d). digits_value d) (kept_markers_darby h)"
    using assms(2) by (intro map_cong) auto
  also from assms(4) have "\<dots> = map verse_number rd"
    by (auto simp: extract_verses_from_html_darby_def darby_loop_eq kept_markers_darby_def
        split: if_splits)
  finally show ?thesis .
qed

lemma padded_bible:
  "extract_verses_from_html_bible padded_marker = Inr [\<lparr>verse_num = 1, text_b = py ''x''\<rparr>] \<and>
   kept_markers_bible padded_marker = [(py ''01'', py ''1'')]"
  by (simp add: padded_marker_def kept_markers_bible_def eval_defs)

lemma padded_darby:
  "extract_verses_from_html_darby padded_marker =
     Inr [\<lparr>verse_number = 1, text_d = py ''x n''\<rparr>] \<and>
   kept_markers_darby padded_marker = [(py ''01'', py ''1'')]"
  by (simp add: padded_marker_def kept_markers_darby_def eval_defs)

text \<open>
  The marker \<open>id="V01">1\<close> before a body with a popup: different digits and different
  texts, the same integer and the same number.
\<close>

theorem C10_same_integer_witness:
  "kept_markers_bible padded_marker = kept_markers_darby padded_marker \<and>
   py ''01'' \<noteq> py ''1'' \<and> digits_value (py ''01'') = digits_value (py ''1'') \<and>
   extract_verses_from_html_bible padded_marker = Inr [\<lparr>verse_num = 1, text_b = py ''x''\<rparr>] \<and>
   extract_verses_from_html_darby padded_marker =
     Inr [\<lparr>verse_number = 1, text_d = py ''x n''\<rparr>] \<and>
   map verse_num [\<lparr>verse_num = 1, text_b = py ''x''\<rparr>] =
   map verse_number [\<lparr>verse_number = 1, text_d = py ''x n''\<rparr>]"
proof -
  have h1: "kept_markers_bible padded_marker = kept_markers_darby padded_marker"
    by (simp only: padded_bible padded_darby)
  have h3: "py ''01'' \<noteq> py ''1'' \<and> digits_value (py ''01'') = digits_value (py ''1'')"
    by (simp add: eval_defs)
  have h2: "\<forall>(a, d) \<in> set (kept_markers_darby padded_marker). digits_value a = digits_value d"
    using h3 by (simp add: padded_darby)
  from C10_same_integer [OF h1 h2 conjunct1 [OF padded_bible] conjunct1 [OF padded_darby]]
    h1 h3 padded_bible padded_darby
  show ?thesis by simp
qed

end
